theory Spec2Isabelle
  imports Main
begin

section \<open>Strings as Python sees them\<close>

text \<open>
  A Python \<open>str\<close> is modelled as a HOL \<open>string\<close>; a character is read as the code point
  \<open>of_char c\<close>, so the model covers the code points 0 to 255.  The classes below are
  those of \<open>str.isspace\<close>, \<open>str.isupper\<close> and \<open>str.islower\<close>, of the regular expression
  classes \<open>\s\<close> and \<open>\w\<close> of a \<open>str\<close> pattern, and of \<open>str.lower\<close>, on that range.
\<close>

text \<open>Python's \<open>ord\<close>.\<close>

definition ord :: "char \<Rightarrow> nat" where
  "ord c = of_char c"

definition in_range :: "nat \<Rightarrow> nat \<Rightarrow> char \<Rightarrow> bool" where
  "in_range lo hi c = (lo \<le> ord c \<and> ord c \<le> hi)"

definition isspace :: "char \<Rightarrow> bool" where
  "isspace c = (in_range 9 13 c \<or> in_range 28 32 c \<or> ord c = 133 \<or> ord c = 160)"

definition isupper_char :: "char \<Rightarrow> bool" where
  "isupper_char c = (in_range 65 90 c \<or> in_range 192 214 c \<or> in_range 216 222 c)"

definition islower_char :: "char \<Rightarrow> bool" where
  "islower_char c = (in_range 97 122 c \<or> ord c = 170 \<or> ord c = 181 \<or> ord c = 186
     \<or> in_range 223 246 c \<or> in_range 248 255 c)"

definition isword :: "char \<Rightarrow> bool" where
  "isword c = (in_range 48 57 c \<or> in_range 65 90 c \<or> ord c = 95 \<or> in_range 97 122 c
     \<or> ord c = 170 \<or> ord c = 178 \<or> ord c = 179 \<or> ord c = 181
     \<or> in_range 185 186 c \<or> in_range 188 190 c
     \<or> in_range 192 214 c \<or> in_range 216 246 c \<or> in_range 248 255 c)"

definition lower_char :: "char \<Rightarrow> char" where
  "lower_char c = (if isupper_char c then char_of (ord c + 32) else c)"

definition lower :: "string \<Rightarrow> string" where
  "lower s = map lower_char s"

definition lstrip :: "string \<Rightarrow> string" where
  "lstrip s = dropWhile isspace s"

definition rstrip :: "string \<Rightarrow> string" where
  "rstrip s = rev (dropWhile isspace (rev s))"

definition strip :: "string \<Rightarrow> string" where
  "strip s = rstrip (lstrip s)"

fun startswith :: "string \<Rightarrow> string \<Rightarrow> bool" where
  "startswith s [] = True"
| "startswith [] (p # ps) = False"
| "startswith (c # cs) (p # ps) = (c = p \<and> startswith cs ps)"

text \<open>\<open>contains sub s\<close> is Python's \<open>sub in s\<close>.\<close>

fun contains :: "string \<Rightarrow> string \<Rightarrow> bool" where
  "contains sub [] = (sub = [])"
| "contains sub (c # cs) = (startswith (c # cs) sub \<or> contains sub cs)"

text \<open>\<open>s.split()\<close>: the maximal runs of characters that are not whitespace.\<close>

fun split_ws_from :: "string \<Rightarrow> string \<Rightarrow> string list" where
  "split_ws_from cur [] = (if cur = [] then [] else [cur])"
| "split_ws_from cur (c # cs) =
     (if isspace c then (if cur = [] then split_ws_from [] cs else cur # split_ws_from [] cs)
      else split_ws_from (cur @ [c]) cs)"

definition split_ws :: "string \<Rightarrow> string list" where
  "split_ws s = split_ws_from [] s"

text \<open>\<open>s.split('\n')\<close>: always at least one piece.\<close>

fun split_nl_from :: "string \<Rightarrow> string \<Rightarrow> string list" where
  "split_nl_from cur [] = [cur]"
| "split_nl_from cur (c # cs) =
     (if c = CHR 0x0A then cur # split_nl_from [] cs else split_nl_from (cur @ [c]) cs)"

definition split_nl :: "string \<Rightarrow> string list" where
  "split_nl s = split_nl_from [] s"

text \<open>\<open>sep.join(xs)\<close>.\<close>

fun join :: "string \<Rightarrow> string list \<Rightarrow> string" where
  "join sep [] = []"
| "join sep [x] = x"
| "join sep (x # y # ys) = x @ sep @ join sep (y # ys)"

section \<open>Exceptions\<close>

datatype exn =
    SyntaxError string "int option"
  | IndexError string
  | UnboundLocalError string
  | KeyError string
  | OtherException string

text \<open>\<open>str(e)\<close> of an exception: its message.\<close>

fun exn_str :: "exn \<Rightarrow> string" where
  "exn_str (SyntaxError m l) = m"
| "exn_str (IndexError m) = m"
| "exn_str (UnboundLocalError m) = m"
| "exn_str (KeyError m) = m"
| "exn_str (OtherException m) = m"

section \<open>The regular expressions of the pattern tables\<close>

text \<open>
  Every pattern of \<open>command_analyzer.py\<close> is a sequence of items: one character of a
  class, a greedy \<open>*\<close> or \<open>+\<close> over one character of a class, or the word boundary
  \<open>\b\<close>.  The classes are a literal character, \<open>\s\<close>, \<open>\w\<close>, \<open>.\<close> (anything but a
  newline), a range \<open>[a-z]\<close> and a negated set \<open>[^...]\<close>.
\<close>

datatype atom = Lit char | Space | Word | Dot | Range char char | NoneOf string

datatype item = One atom | Star atom | Plus atom | Boundary

type_synonym pattern = "item list"

text \<open>\<open>atom_ok ic a c\<close>: the character \<open>c\<close> is in the class \<open>a\<close>; \<open>ic\<close> is the flag
  \<open>re.IGNORECASE\<close>, under which the lowered character is compared with the lowered
  literal, and looked up among the lowered members of a set or range.\<close>

fun atom_ok :: "bool \<Rightarrow> atom \<Rightarrow> char \<Rightarrow> bool" where
  "atom_ok ic (Lit p) c = (if ic then lower_char c = lower_char p else c = p)"
| "atom_ok ic Space c = isspace c"
| "atom_ok ic Word c = isword c"
| "atom_ok ic Dot c = (c \<noteq> CHR 0x0A)"
| "atom_ok ic (Range lo hi) c =
     (if ic then lower_char c \<in> set (map (\<lambda>n. lower_char (char_of n)) [ord lo ..< Suc (ord hi)])
      else in_range (ord lo) (ord hi) c)"
| "atom_ok ic (NoneOf cs) c =
     (if ic then lower_char c \<notin> set (map lower_char cs) else c \<notin> set cs)"

definition isword_opt :: "char option \<Rightarrow> bool" where
  "isword_opt p = (case p of None \<Rightarrow> False | Some c \<Rightarrow> isword c)"

definition at_boundary :: "char option \<Rightarrow> string \<Rightarrow> bool" where
  "at_boundary prev s = (isword_opt prev \<noteq> isword_opt (case s of [] \<Rightarrow> None | c # _ \<Rightarrow> Some c))"

text \<open>
  The backtracking matcher at a fixed start: \<open>prev\<close> is the character before the
  current position, the result is the text left after the match the engine finds first
  (a greedy repetition takes as many characters as it can and gives them back one by
  one).
\<close>

fun match_here :: "bool \<Rightarrow> pattern \<Rightarrow> char option \<Rightarrow> string \<Rightarrow> string option" where
  "match_here ic [] prev s = Some s"
| "match_here ic (One a # ps) prev [] = None"
| "match_here ic (One a # ps) prev (c # cs) =
     (if atom_ok ic a c then match_here ic ps (Some c) cs else None)"
| "match_here ic (Plus a # ps) prev [] = None"
| "match_here ic (Plus a # ps) prev (c # cs) =
     (if atom_ok ic a c then match_here ic (Star a # ps) (Some c) cs else None)"
| "match_here ic (Star a # ps) prev [] = match_here ic ps prev []"
| "match_here ic (Star a # ps) prev (c # cs) =
     (if atom_ok ic a c
      then (case match_here ic (Star a # ps) (Some c) cs of
              Some r \<Rightarrow> Some r
            | None \<Rightarrow> match_here ic ps prev (c # cs))
      else match_here ic ps prev (c # cs))"
| "match_here ic (Boundary # ps) prev s =
     (if at_boundary prev s then match_here ic ps prev s else None)"

text \<open>The leftmost match: the text that \<open>re.search\<close> finds, if any.\<close>

fun search_from :: "bool \<Rightarrow> pattern \<Rightarrow> char option \<Rightarrow> string \<Rightarrow> string option" where
  "search_from ic ps prev [] =
     (case match_here ic ps prev [] of Some r \<Rightarrow> Some [] | None \<Rightarrow> None)"
| "search_from ic ps prev (c # cs) =
     (case match_here ic ps prev (c # cs) of
        Some r \<Rightarrow> Some (take (length (c # cs) - length r) (c # cs))
      | None \<Rightarrow> search_from ic ps (Some c) cs)"

text \<open>\<open>re.search(pattern, s, flags)\<close> read as a truth value.\<close>

definition re_search :: "bool \<Rightarrow> pattern \<Rightarrow> string \<Rightarrow> bool" where
  "re_search ic ps s = (search_from ic ps None s \<noteq> None)"

text \<open>
  \<open>re.findall(pattern, s, flags)[0]\<close>: the patterns have no groups, so the elements of
  \<open>findall\<close> are the matched texts, the first of them is the leftmost match, and the
  index raises \<open>IndexError\<close> when there is none.  The source reads no other element.
\<close>

definition re_findall_0 :: "bool \<Rightarrow> pattern \<Rightarrow> string \<Rightarrow> exn + string" where
  "re_findall_0 ic ps s =
     (case search_from ic ps None s of
        None \<Rightarrow> Inl (IndexError ''list index out of range'')
      | Some m \<Rightarrow> Inr m)"

definition lits :: "string \<Rightarrow> pattern" where
  "lits s = map (\<lambda>c. One (Lit c)) s"

section \<open>command_analyzer.py\<close>

text \<open>
  The issues of both analysers are dictionaries with the keys \<open>type\<close> and \<open>message\<close>;
  the command analyser adds \<open>risk\<close> and \<open>command_part\<close>, the code analyser \<open>line\<close>
  (\<open>None\<close> is Python's \<open>None\<close>).
\<close>

record finding =
  type :: string
  message :: string

record issue = finding +
  risk :: string
  command_part :: string

record code_issue = finding +
  line :: "int option"

text \<open>Both results hold the lists \<open>issues\<close> and \<open>suggestions\<close>.\<close>

record 'i report =
  issues :: "'i list"
  suggestions :: "string list"

text \<open>The dictionary that \<open>analyze_command\<close> returns.\<close>

record command_result = "issue report" +
  command :: string
  risk_level :: string
  total_issues :: nat
  total_suggestions :: nat
  is_code :: bool
  corrected_code :: string

text \<open>The dictionary that \<open>analyze_code\<close> returns; \<open>line_suggestions\<close> is always empty.\<close>

record analysis_result = "code_issue report" +
  filename :: string
  score :: int
  code_lines :: "string list"
  line_suggestions :: "(int \<times> string) list"

text \<open>
  \<open>ast.parse\<close> is the one collaborator of this module that is not modelled: it is a
  parameter giving, for a source text, the nodes of the tree in the order of
  \<open>ast.walk\<close>, or the exception raised.
\<close>

datatype node = FunctionDef string int | ClassDef string int | OtherNode

type_synonym parser = "string \<Rightarrow> exn + node list"

subsection \<open>_looks_like_python\<close>

definition python_indicators :: "string list" where
  "python_indicators =
    [''print('', ''print '', ''def '', ''class '', ''import '', ''from '', ''if '', ''for '',
     ''while '', ''try:'', ''except:'', ''with '', ''.py'', ''len('', ''str('', ''int('',
     ''list('', ''dict('']"

definition looks_like_python :: "string \<Rightarrow> bool" where
  "looks_like_python cmd =
     (let cmd = strip cmd in list_ex (\<lambda>indicator. contains indicator cmd) python_indicators)"

subsection \<open>_analyze_python_syntax\<close>

text \<open>\<open>\bprint\s+\w+\<close>, \<open>print\([^"\']*\w+[^"\']*\)\<close> and \<open>print\([^)]+\)\<close>.\<close>

definition print_statement_re :: pattern where
  "print_statement_re = Boundary # lits ''print'' @ [Plus Space, Plus Word]"

definition print_unquoted_re :: pattern where
  "print_unquoted_re =
     lits ''print('' @ [Star (NoneOf [CHR 0x22, CHR 0x27]), Plus Word, Star (NoneOf [CHR 0x22, CHR 0x27]),
       One (Lit CHR '')'')]"

definition print_call_re :: pattern where
  "print_call_re = lits ''print('' @ [Plus (NoneOf '')''), One (Lit CHR '')'')]"

text \<open>
  The body of the \<open>try\<close>: the issues appended so far, and the exception that left the
  body, if one did.
\<close>

definition python_syntax_body :: "parser \<Rightarrow> string \<Rightarrow> issue list \<times> exn option" where
  "python_syntax_body parse cmd =
     (case parse cmd of
        Inl e \<Rightarrow> ([], Some e)
      | Inr tree \<Rightarrow>
          (let (issues1, raised) =
             (if re_search False print_statement_re cmd
              then (case re_findall_0 False print_statement_re cmd of
                      Inl e \<Rightarrow> ([], Some e)
                    | Inr part \<Rightarrow>
                        ([\<lparr>type = ''SYNTAX'',
                           message = ''Python 3 requires parentheses for print statements: print('' @ [CHR 0x22] @ ''hello'' @ [CHR 0x22] @ '')'',
                           risk = ''MEDIUM'', command_part = part\<rparr>], None))
              else ([], None))
           in case raised of
                Some e \<Rightarrow> (issues1, Some e)
              | None \<Rightarrow>
                  (if re_search False print_unquoted_re cmd
                   then (case re_findall_0 False print_call_re cmd of
                           Inl e \<Rightarrow> (issues1, Some e)
                         | Inr print_match \<Rightarrow>
                             (if \<not> (CHR 0x22 \<in> set print_match \<or> CHR 0x27 \<in> set print_match)
                              then (issues1 @
                                     [\<lparr>type = ''SYNTAX'',
                                       message = ''String literals in print statements should be enclosed in quotes'',
                                       risk = ''MEDIUM'', command_part = print_match\<rparr>], None)
                              else (issues1, None)))
                   else (issues1, None))))"

text \<open>The two handlers: \<open>except SyntaxError\<close>, then \<open>except Exception\<close>.\<close>

definition analyze_python_syntax :: "parser \<Rightarrow> string \<Rightarrow> issue list" where
  "analyze_python_syntax parse cmd =
     (case python_syntax_body parse cmd of
        (found, None) \<Rightarrow> found
      | (found, Some (SyntaxError m l)) \<Rightarrow>
          found @ [\<lparr>type = ''SYNTAX'',
                     message = ''Syntax error: '' @ exn_str (SyntaxError m l),
                     risk = ''MEDIUM'', command_part = cmd\<rparr>]
      | (found, Some e) \<Rightarrow>
          found @ [\<lparr>type = ''ERROR'',
                     message = ''Python parsing error: '' @ exn_str e,
                     risk = ''MEDIUM'', command_part = cmd\<rparr>])"

subsection \<open>_generate_corrected_code\<close>

text \<open>
  The inner \<open>for j\<close> loop over the lines after a header: it stops with \<open>has_docstring\<close>
  unset at a line whose stripped text is not empty and does not start with a blank or a
  tab, stops with \<open>has_docstring\<close> set at a line whose stripped text starts with three
  quotes, and goes on otherwise.
\<close>

fun has_docstring :: "string list \<Rightarrow> bool" where
  "has_docstring [] = False"
| "has_docstring (l # ls) =
     (let next_line = strip l in
      if next_line \<noteq> [] \<and> \<not> startswith next_line '' '' \<and> \<not> startswith next_line [CHR 0x09]
      then False
      else if startswith next_line [CHR 0x22, CHR 0x22, CHR 0x22] \<or> startswith next_line [CHR 0x27, CHR 0x27, CHR 0x27]
      then True
      else has_docstring ls)"

definition is_header :: "string \<Rightarrow> bool" where
  "is_header stripped = (startswith stripped ''def '' \<or> startswith stripped ''class '')"

text \<open>The three lines appended after the header line \<open>ln\<close>.\<close>

definition placeholder :: "string \<Rightarrow> string list" where
  "placeholder ln =
     (let stripped = strip ln;
          indent = length ln - length (lstrip ln)
      in [replicate indent CHR '' '' @ ''    '' @ [CHR 0x22, CHR 0x22, CHR 0x22],
          (if startswith stripped ''def ''
           then replicate indent CHR '' '' @ ''    Function description.''
           else replicate indent CHR '' '' @ ''    Class description.''),
          replicate indent CHR '' '' @ ''    '' @ [CHR 0x22, CHR 0x22, CHR 0x22]])"

text \<open>The outer loop: \<open>rest\<close> is \<open>lines[i + 1:]\<close>.\<close>

fun corrected_lines :: "string list \<Rightarrow> string list" where
  "corrected_lines [] = []"
| "corrected_lines (ln # rest) =
     (ln #
       (if is_header (strip ln) then (if \<not> has_docstring rest then placeholder ln else []) else []))
     @ corrected_lines rest"

definition generate_corrected_code :: "string \<Rightarrow> string" where
  "generate_corrected_code cmd = join [CHR 0x0A] (corrected_lines (split_nl cmd))"

subsection \<open>analyze_command\<close>

definition dangerous_patterns :: "(pattern \<times> string \<times> string) list" where
  "dangerous_patterns =
    [(lits ''rm'' @ [Plus Space] @ lits ''-rf'' @ [Plus Space] @ lits ''/'',
        ''DANGER'', ''Using rm -rf on root directory can delete entire system''),
     (lits ''rm'' @ [Plus Space] @ lits ''-rf'' @ [Plus Space] @ lits ''*'',
        ''DANGER'', ''Using rm -rf * can delete all files in current directory''),
     (lits ''rm'' @ [Plus Space] @ lits ''-rf'' @ [Plus Space] @ lits ''/home'',
        ''HIGH'', ''Deleting /home directory affects all user data''),
     (lits ''chmod'' @ [Plus Space] @ lits ''777'' @ [Plus Space],
        ''MEDIUM'', ''Setting permissions to 777 gives full access to everyone''),
     (lits ''sudo'' @ [Plus Space, Star Dot] @ lits ''rm'' @ [Plus Space] @ lits ''-rf'',
        ''CRITICAL'', ''Combining sudo with rm -rf is extremely dangerous''),
     (lits ''>'' @ [Star Space] @ lits ''/dev/sd'' @ [One (Range CHR ''a'' CHR ''z'')],
        ''CRITICAL'', ''Writing to disk device can destroy partition''),
     (lits ''dd'' @ [Plus Space] @ lits ''if='' @ [Star Dot] @ lits ''of=/dev/sd'' @ [One (Range CHR ''a'' CHR ''z'')],
        ''CRITICAL'', ''dd command can overwrite entire disks''),
     (lits ''curl'' @ [Plus Space, Star Dot] @ lits ''|'' @ [Star Space] @ lits ''bash'',
        ''HIGH'', ''Piping curl output to bash can execute malicious code''),
     (lits ''wget'' @ [Plus Space, Star Dot] @ lits ''|'' @ [Star Space] @ lits ''bash'',
        ''HIGH'', ''Piping wget output to bash can execute malicious code''),
     (lits ''ssh'' @ [Plus Space, Star Dot] @ lits ''-o'' @ [Plus Space] @ lits ''StrictHostKeyChecking=no'',
        ''MEDIUM'', ''Disabling host key checking is insecure''),
     (lits ''mysql'' @ [Plus Space, Star Dot] @ lits ''-p'' @ [Star Space, One (NoneOf ''-'')],
        ''MEDIUM'', ''Password in command line is visible in process list''),
     (lits ''psql'' @ [Plus Space, Star Dot] @ lits ''-W'',
        ''MEDIUM'', ''Password prompt might be insecure''),
     (lits ''find'' @ [Plus Space, Star Dot] @ lits ''-exec'' @ [Plus Space] @ lits ''rm'',
        ''MEDIUM'', ''find with -exec rm can be dangerous if not careful''),
     (lits ''chown'' @ [Plus Space, Star Dot] @ lits '':'' @ [Star Space],
        ''LOW'', ''Changing ownership - verify target is correct''),
     (lits ''mount'' @ [Plus Space, Star Dot] @ lits ''remount'',
        ''MEDIUM'', ''Remounting can affect system stability'')]"

definition best_practices :: "(pattern \<times> string) list" where
  "best_practices =
    [(lits ''cp'' @ [Plus Space, Star Dot, Plus Space, Star Dot],
        ''Consider using rsync for large file operations''),
     (lits ''tar'' @ [Plus Space, Star Dot], ''Consider using pigz for faster compression''),
     (lits ''grep'' @ [Plus Space, Star Dot], ''Consider using ripgrep (rg) for faster searching''),
     (lits ''find'' @ [Plus Space, Star Dot], ''Consider using fd for faster file finding''),
     (lits ''ls'' @ [Plus Space] @ lits ''-la'', ''Consider using exa or lsd for better output''),
     (lits ''cat'' @ [Plus Space, Star Dot] @ lits ''|'' @ [Star Space] @ lits ''grep'',
        ''Consider using grep directly on files''),
     (lits ''ps'' @ [Plus Space] @ lits ''aux'',
        ''Consider using htop or btop for better process monitoring'')]"

text \<open>The dictionary \<open>common_typos\<close>, in the order of its keys.\<close>

definition common_typos :: "(string \<times> string) list" where
  "common_typos =
    [(''gerp'', ''grep''), (''cd..'', ''cd ..''), (''cd/'', ''cd /''), (''ls-la'', ''ls -la''),
     (''ps-aux'', ''ps aux''), (''top|'', ''top |'')]"

text \<open>The \<open>if\<close>/\<open>elif\<close> chain that updates \<open>risk_level\<close> after a match of tier \<open>rk\<close>.\<close>

definition escalate :: "string \<Rightarrow> string \<Rightarrow> string" where
  "escalate rk level =
     (if rk = ''CRITICAL'' then ''CRITICAL''
      else if rk = ''HIGH'' \<and> level \<noteq> ''CRITICAL'' then ''HIGH''
      else if rk = ''MEDIUM'' \<and> level \<notin> set [''CRITICAL'', ''HIGH''] then ''MEDIUM''
      else level)"

text \<open>The loop over \<open>dangerous_patterns\<close>, on the issues and the risk level so far.\<close>

fun scan_dangerous ::
  "(pattern \<times> string \<times> string) list \<Rightarrow> string \<Rightarrow> issue list \<Rightarrow> string \<Rightarrow> exn + (issue list \<times> string)" where
  "scan_dangerous [] cmd found level = Inr (found, level)"
| "scan_dangerous ((pat, rk, msg) # rest) cmd found level =
     (if re_search True pat cmd
      then (case re_findall_0 True pat cmd of
              Inl e \<Rightarrow> Inl e
            | Inr part \<Rightarrow>
                scan_dangerous rest cmd
                  (found @ [\<lparr>type = ''SECURITY'', message = msg, risk = rk, command_part = part\<rparr>])
                  (escalate rk level))
      else scan_dangerous rest cmd found level)"

fun scan_best_practices :: "(pattern \<times> string) list \<Rightarrow> string \<Rightarrow> string list \<Rightarrow> string list" where
  "scan_best_practices [] cmd sugg = sugg"
| "scan_best_practices ((pat, suggestion) # rest) cmd sugg =
     scan_best_practices rest cmd (if re_search True pat cmd then sugg @ [suggestion] else sugg)"

fun scan_typos :: "(string \<times> string) list \<Rightarrow> string \<Rightarrow> issue list \<Rightarrow> issue list" where
  "scan_typos [] cmd found = found"
| "scan_typos ((typo, correction) # rest) cmd found =
     scan_typos rest cmd
       (if contains typo cmd
        then found @ [\<lparr>type = ''TYPO'',
                        message = ''Possible typo: '' @ typo @ '' should be '' @ correction,
                        risk = ''LOW'', command_part = typo\<rparr>]
        else found)"

text \<open>The heuristic checks between the two table scans and the typo scan.\<close>

definition additional_checks :: "string \<Rightarrow> string list \<Rightarrow> string list" where
  "additional_checks cmd sugg =
     (let sugg1 =
            (if contains ''sudo'' (lower cmd)
             then (if \<not> list_ex (\<lambda>word. contains word (lower cmd))
                           [''apt'', ''yum'', ''dnf'', ''pacman'', ''systemctl'']
                   then sugg @ [''Verify if sudo is necessary for this command'']
                   else sugg)
             else sugg);
          sugg2 =
            (if contains ''|'' cmd
             then sugg1 @ [''Consider breaking complex piped commands into separate steps for clarity'']
             else sugg1)
      in if length (split_ws cmd) > 10
         then sugg2 @ [''Command is quite long - consider using a script for complex operations'']
         else sugg2)"

text \<open>
  \<open>analyze_command\<close>: \<open>Inl\<close> is an exception that leaves the function, \<open>Inr\<close> the
  dictionary returned.
\<close>

definition analyze_command :: "parser \<Rightarrow> string \<Rightarrow> exn + command_result" where
  "analyze_command parse cmd =
     (let (found0, level0) =
            (if looks_like_python cmd
             then (let python_issues = analyze_python_syntax parse cmd
                   in (python_issues, if python_issues \<noteq> [] then ''MEDIUM'' else ''LOW''))
             else ([], ''LOW''))
      in case scan_dangerous dangerous_patterns cmd found0 level0 of
           Inl e \<Rightarrow> Inl e
         | Inr (found1, level1) \<Rightarrow>
             (let sugg = additional_checks cmd (scan_best_practices best_practices cmd []);
                  found2 = scan_typos common_typos cmd found1;
                  code_like = looks_like_python cmd;
                  corrected = (if code_like then generate_corrected_code cmd else [])
              in Inr \<lparr>issues = found2, suggestions = sugg, command = cmd, risk_level = level1,
                       total_issues = length found2, total_suggestions = length sugg,
                       is_code = code_like, corrected_code = corrected\<rparr>))"

section \<open>analyzer.py\<close>

subsection \<open>Library functions\<close>

text \<open>\<open>str(n)\<close> of an integer, as the f-strings format it.\<close>

function str_nat :: "nat \<Rightarrow> string" where
  "str_nat n = (if n < 10 then [char_of (48 + n)] else str_nat (n div 10) @ [char_of (48 + n mod 10)])"
  by pat_completeness auto
termination
  by (relation "measure (\<lambda>n. n)") auto

definition str_int :: "int \<Rightarrow> string" where
  "str_int i = (if i < 0 then ''-'' @ str_nat (nat (- i)) else str_nat (nat i))"

text \<open>\<open>str.islower\<close>: no uppercase character and at least one lowercase one.\<close>

definition islower :: "string \<Rightarrow> bool" where
  "islower s = (list_ex islower_char s \<and> \<not> list_ex isupper_char s)"

text \<open>\<open>str.istitle\<close>: an uppercase character only after an uncased one, a lowercase
  character only after a cased one, and at least one cased character.\<close>

fun istitle_from :: "bool \<Rightarrow> bool \<Rightarrow> string \<Rightarrow> bool" where
  "istitle_from previous_is_cased cased [] = cased"
| "istitle_from previous_is_cased cased (c # cs) =
     (if isupper_char c then (if previous_is_cased then False else istitle_from True True cs)
      else if islower_char c then (if \<not> previous_is_cased then False else istitle_from True True cs)
      else istitle_from False cased cs)"

definition istitle :: "string \<Rightarrow> bool" where
  "istitle s = istitle_from False False s"

text \<open>\<open>str.splitlines\<close> on the code points below 256.\<close>

definition is_linebreak :: "char \<Rightarrow> bool" where
  "is_linebreak c = (in_range 10 13 c \<or> in_range 28 30 c \<or> ord c = 133)"

fun splitlines_from :: "string \<Rightarrow> string \<Rightarrow> string list" where
  "splitlines_from cur [] = (if cur = [] then [] else [cur])"
| "splitlines_from cur (c # cs) =
     (if is_linebreak c
      then cur # (case cs of
                    [] \<Rightarrow> []
                  | d # ds \<Rightarrow> if c = CHR 0x0D \<and> d = CHR 0x0A then splitlines_from [] ds
                               else splitlines_from [] (d # ds))
      else splitlines_from (cur @ [c]) cs)"

definition splitlines :: "string \<Rightarrow> string list" where
  "splitlines s = splitlines_from [] s"

text \<open>\<open>os.path.basename\<close> (POSIX): the text after the last slash.\<close>

definition basename :: "string \<Rightarrow> string" where
  "basename path = rev (takeWhile (\<lambda>c. c \<noteq> CHR ''/'') (rev path))"

subsection \<open>The collaborators\<close>

text \<open>
  An element of pylint's JSON output as the loop reads it: an object with the keys
  \<open>type\<close>, \<open>message\<close> and \<open>line\<close>, or an element at which building the issue raises.
  A block of \<open>radon.complexity.cc_visit\<close> has a name, a complexity and a line number.
\<close>

datatype pylint_item = Item string string int | Malformed exn

record block =
  name :: string
  complexity :: int
  lineno :: int

text \<open>
  What \<open>analyze_code\<close> reads from outside, each with the exception it may raise:
  the pylint run with the decoding of its output, the first read of the file, radon's
  \<open>cc_visit\<close>, the \<open>loc\<close> of \<open>radon_metrics.raw_metrics(code)\<close>, \<open>ast.parse\<close> with
  \<open>ast.walk\<close>, and the second read of the file (as UTF-8).  The module \<open>radon.metrics\<close>
  has no attribute \<open>raw_metrics\<close> (radon's raw metrics are \<open>radon.raw.analyze\<close>), so
  with the library as released the fourth of them raises \<open>AttributeError\<close> on every call;
  the model keeps the call as the source writes it, for any outcome.
\<close>

record world =
  pylint :: "string \<Rightarrow> exn + pylint_item list"
  read_text :: "string \<Rightarrow> exn + string"
  cc_visit :: "string \<Rightarrow> exn + block list"
  raw_metrics_loc :: "string \<Rightarrow> exn + int"
  ast_parse :: parser
  read_utf8 :: "string \<Rightarrow> exn + string"

subsection \<open>analyze_code\<close>

text \<open>The state of the function: \<open>issues\<close>, \<open>suggestions\<close> and \<open>score\<close>.\<close>

type_synonym acc = "code_issue list \<times> string list \<times> int"

text \<open>The loop over pylint's output; an exception leaves it with what was appended.\<close>

fun pylint_loop :: "pylint_item list \<Rightarrow> acc \<Rightarrow> acc \<times> exn option" where
  "pylint_loop [] a = (a, None)"
| "pylint_loop (Malformed e # rest) a = (a, Some e)"
| "pylint_loop (Item t m l # rest) (found, sugg, sc) =
     pylint_loop rest
       (found @ [\<lparr>type = t, message = m, line = Some l\<rparr>], sugg,
        if t = ''error'' then sc - 10 else if t = ''warning'' then sc - 5 else sc - 2)"

definition failed :: "string \<Rightarrow> exn \<Rightarrow> acc \<Rightarrow> acc" where
  "failed what e a =
     (case a of (found, sugg, sc) \<Rightarrow>
        (found @ [\<lparr>type = ''error'', message = what @ exn_str e, line = Some 0\<rparr>], sugg, sc))"

definition run_pylint :: "world \<Rightarrow> string \<Rightarrow> acc \<Rightarrow> acc" where
  "run_pylint w filepath a =
     (case pylint w filepath of
        Inl e \<Rightarrow> failed ''Pylint failed: '' e a
      | Inr pylint_output \<Rightarrow>
          (case pylint_loop pylint_output a of
             (a', None) \<Rightarrow> a'
           | (a', Some e) \<Rightarrow> failed ''Pylint failed: '' e a'))"

fun complexity_loop :: "block list \<Rightarrow> acc \<Rightarrow> acc" where
  "complexity_loop [] a = a"
| "complexity_loop (func # rest) (found, sugg, sc) =
     complexity_loop rest
       (if complexity func > 10
        then (found @ [\<lparr>type = ''warning'',
                         message = ''High complexity in '' @ name func @ '': '' @ str_int (complexity func),
                         line = Some (lineno func)\<rparr>],
              sugg @ [''Refactor '' @ name func @ '' to reduce complexity''],
              sc - 5)
        else (found, sugg, sc))"

text \<open>The second \<open>try\<close>: the state after it, and \<open>code\<close> if it was assigned.\<close>

definition analyze_complexity :: "world \<Rightarrow> string \<Rightarrow> acc \<Rightarrow> acc \<times> string option" where
  "analyze_complexity w filepath a =
     (case read_text w filepath of
        Inl e \<Rightarrow> (failed ''Complexity analysis failed: '' e a, None)
      | Inr src \<Rightarrow>
          (case cc_visit w src of
             Inl e \<Rightarrow> (failed ''Complexity analysis failed: '' e a, Some src)
           | Inr blocks \<Rightarrow>
               (let a1 = complexity_loop blocks a in
                case raw_metrics_loc w src of
                  Inl e \<Rightarrow> (failed ''Complexity analysis failed: '' e a1, Some src)
                | Inr loc \<Rightarrow>
                    (if loc > 100
                     then (case a1 of (found, sugg, sc) \<Rightarrow>
                             ((found @ [\<lparr>type = ''info'',
                                          message = ''File is quite long: '' @ str_int loc @ '' lines'',
                                          line = Some 0\<rparr>],
                               sugg @ [''Consider breaking down the file into smaller modules''],
                               sc - 5), Some src))
                     else (a1, Some src)))))"

text \<open>The walk over the nodes of the tree.\<close>

fun naming_loop :: "node list \<Rightarrow> acc \<Rightarrow> acc" where
  "naming_loop [] a = a"
| "naming_loop (FunctionDef nm ln # rest) (found, sugg, sc) =
     naming_loop rest
       (if \<not> islower nm \<or> CHR ''_'' \<notin> set nm
        then (found @ [\<lparr>type = ''warning'',
                         message = ''Function name '' @ nm @ '' does not follow snake_case convention'',
                         line = Some ln\<rparr>],
              sugg @ [''Rename '' @ nm @ '' to follow snake_case''],
              sc - 2)
        else (found, sugg, sc))"
| "naming_loop (ClassDef nm ln # rest) (found, sugg, sc) =
     naming_loop rest
       (if \<not> istitle nm
        then (found @ [\<lparr>type = ''warning'',
                         message = ''Class name '' @ nm @ '' does not follow PascalCase convention'',
                         line = Some ln\<rparr>],
              sugg @ [''Rename '' @ nm @ '' to follow PascalCase''],
              sc - 2)
        else (found, sugg, sc))"
| "naming_loop (OtherNode # rest) a = naming_loop rest a"

text \<open>
  The third \<open>try\<close>, which catches \<open>SyntaxError\<close> only.  Reading \<open>code\<close> when the second
  \<open>try\<close> did not assign it raises \<open>UnboundLocalError\<close>.
\<close>

definition analyze_naming :: "world \<Rightarrow> string option \<Rightarrow> acc \<Rightarrow> exn + acc" where
  "analyze_naming w src a =
     (case src of
        None \<Rightarrow>
          Inl (UnboundLocalError
                 ''cannot access local variable 'code' where it is not associated with a value'')
      | Some content \<Rightarrow>
          (case ast_parse w content of
             Inr tree \<Rightarrow> Inr (naming_loop tree a)
           | Inl (SyntaxError m l) \<Rightarrow>
               (case a of (found, sugg, sc) \<Rightarrow>
                  Inr (found @ [\<lparr>type = ''error'',
                                  message = ''Syntax error: '' @ exn_str (SyntaxError m l),
                                  line = l\<rparr>],
                       sugg, sc - 20))
           | Inl e \<Rightarrow> Inl e))"

text \<open>
  \<open>analyze_code\<close>: \<open>Inl\<close> is an exception that leaves the function, \<open>Inr\<close> the dictionary
  returned.
\<close>

definition analyze_code :: "world \<Rightarrow> string \<Rightarrow> exn + analysis_result" where
  "analyze_code w filepath =
     (let a1 = run_pylint w filepath ([], [], 100);
          (a2, src) = analyze_complexity w filepath a1
      in case analyze_naming w src a2 of
           Inl e \<Rightarrow> Inl e
         | Inr (found, sugg, sc) \<Rightarrow>
             (let sc' = max 0 sc;
                  lns = (case read_utf8 w filepath of Inl e \<Rightarrow> [] | Inr content \<Rightarrow> splitlines content)
              in Inr \<lparr>issues = found, suggestions = sugg, filename = basename filepath,
                       score = sc', code_lines = lns, line_suggestions = []\<rparr>))"

section \<open>The vocabulary of the properties\<close>

subsection \<open>Risk tiers\<close>

text \<open>The scale of the overall risk level, lowest first, and the position of a tier on
  it.  A string that is not on the scale has no position and is comparable with nothing.\<close>

definition tiers :: "string list" where
  "tiers = [''LOW'', ''MEDIUM'', ''HIGH'', ''CRITICAL'']"

definition tier_rank :: "string \<Rightarrow> nat option" where
  "tier_rank t =
     (if t = ''LOW'' then Some 0 else if t = ''MEDIUM'' then Some 1
      else if t = ''HIGH'' then Some 2 else if t = ''CRITICAL'' then Some 3 else None)"

definition tier_le :: "string \<Rightarrow> string \<Rightarrow> bool" where
  "tier_le a b = (case (tier_rank a, tier_rank b) of (Some i, Some j) \<Rightarrow> i \<le> j | _ \<Rightarrow> False)"

text \<open>The tiers of the entries of \<open>dangerous_patterns\<close> that match a command, in the
  order of the table.\<close>

definition matched_tiers :: "string \<Rightarrow> string list" where
  "matched_tiers cmd =
     map (\<lambda>(pat, rk, msg). rk) (filter (\<lambda>(pat, rk, msg). re_search True pat cmd) dangerous_patterns)"

text \<open>The floor that the embedded-Python path sets before the table is scanned.\<close>

definition python_floor :: "parser \<Rightarrow> string \<Rightarrow> string" where
  "python_floor parse cmd =
     (if looks_like_python cmd \<and> analyze_python_syntax parse cmd \<noteq> [] then ''MEDIUM'' else ''LOW'')"

subsection \<open>Letter case\<close>

text \<open>Two texts have the same letters when they differ in letter case only.\<close>

definition same_letters :: "string \<Rightarrow> string \<Rightarrow> bool" where
  "same_letters r' r = (lower r' = lower r)"

subsection \<open>The naming rule\<close>

text \<open>
  The rule of the naming walk in words: a function definition breaks it unless its name
  is lowercase and contains an underscore, a class definition breaks it unless its name
  is in title case.  Each node that breaks the rule gets one warning and one suggestion.
\<close>

fun breaks_naming_rule :: "node \<Rightarrow> bool" where
  "breaks_naming_rule (FunctionDef nm ln) = (\<not> (islower nm \<and> CHR ''_'' \<in> set nm))"
| "breaks_naming_rule (ClassDef nm ln) = (\<not> istitle nm)"
| "breaks_naming_rule OtherNode = False"

fun naming_issue :: "node \<Rightarrow> code_issue" where
  "naming_issue (FunctionDef nm ln) =
     \<lparr>type = ''warning'', message = ''Function name '' @ nm @ '' does not follow snake_case convention'',
      line = Some ln\<rparr>"
| "naming_issue (ClassDef nm ln) =
     \<lparr>type = ''warning'', message = ''Class name '' @ nm @ '' does not follow PascalCase convention'',
      line = Some ln\<rparr>"
| "naming_issue OtherNode = \<lparr>type = [], message = [], line = None\<rparr>"

fun naming_suggestion :: "node \<Rightarrow> string" where
  "naming_suggestion (FunctionDef nm ln) = ''Rename '' @ nm @ '' to follow snake_case''"
| "naming_suggestion (ClassDef nm ln) = ''Rename '' @ nm @ '' to follow PascalCase''"
| "naming_suggestion OtherNode = []"

subsection \<open>Findings and failure reports\<close>

text \<open>
  What a check finds is charged: a finding is an issue together with the points it
  costs and the suggestions that come with it.  What a failing check leaves is a
  report: an \<open>error\<close> issue on line 0 that costs nothing.
\<close>

type_synonym charge = "code_issue \<times> int \<times> string list"

definition issue_of :: "charge \<Rightarrow> code_issue" where
  "issue_of f = fst f"

definition points_of :: "charge \<Rightarrow> int" where
  "points_of f = fst (snd f)"

definition advice_of :: "charge \<Rightarrow> string list" where
  "advice_of f = snd (snd f)"

definition points :: "charge list \<Rightarrow> int" where
  "points fs = sum_list (map points_of fs)"

definition advice :: "charge list \<Rightarrow> string list" where
  "advice fs = concat (map advice_of fs)"

definition report :: "string \<Rightarrow> exn \<Rightarrow> code_issue" where
  "report what e = \<lparr>type = ''error'', message = what @ exn_str e, line = Some 0\<rparr>"

text \<open>The lint pass charges each finding it reads by its type: 10 for an error, 5 for a
  warning, 2 for anything else; it reads up to the first element that raises.\<close>

fun lint_findings :: "pylint_item list \<Rightarrow> charge list" where
  "lint_findings [] = []"
| "lint_findings (Malformed e # rest) = []"
| "lint_findings (Item t m l # rest) =
     (\<lparr>type = t, message = m, line = Some l\<rparr>,
      (if t = ''error'' then 10 else if t = ''warning'' then 5 else 2), [])
     # lint_findings rest"

fun lint_raised :: "pylint_item list \<Rightarrow> exn option" where
  "lint_raised [] = None"
| "lint_raised (Malformed e # rest) = Some e"
| "lint_raised (Item t m l # rest) = lint_raised rest"

text \<open>A function of complexity above 10 costs 5 points, a file of more than 100 lines
  costs 5 points, and a node that breaks the naming rule costs 2 points.\<close>

definition complexity_findings :: "block list \<Rightarrow> charge list" where
  "complexity_findings blocks =
     map (\<lambda>func. (\<lparr>type = ''warning'',
                     message = ''High complexity in '' @ name func @ '': '' @ str_int (complexity func),
                     line = Some (lineno func)\<rparr>,
                   5, [''Refactor '' @ name func @ '' to reduce complexity'']))
         (filter (\<lambda>func. complexity func > 10) blocks)"

definition size_findings :: "int \<Rightarrow> charge list" where
  "size_findings loc =
     (if loc > 100
      then [(\<lparr>type = ''info'', message = ''File is quite long: '' @ str_int loc @ '' lines'',
              line = Some 0\<rparr>,
             5, [''Consider breaking down the file into smaller modules''])]
      else [])"

definition naming_findings :: "node list \<Rightarrow> charge list" where
  "naming_findings tree =
     map (\<lambda>n. (naming_issue n, 2, [naming_suggestion n])) (filter breaks_naming_rule tree)"

text \<open>The three checks on a file: the findings of each, and the reports of the two that
  can fail with one.  A syntax error is a finding of the naming check, at 20 points.\<close>

definition lint_check :: "world \<Rightarrow> string \<Rightarrow> charge list \<times> code_issue list" where
  "lint_check w p =
     (case pylint w p of
        Inl e \<Rightarrow> ([], [report ''Pylint failed: '' e])
      | Inr items \<Rightarrow>
          (lint_findings items,
           case lint_raised items of None \<Rightarrow> [] | Some e \<Rightarrow> [report ''Pylint failed: '' e]))"

definition complexity_check :: "world \<Rightarrow> string \<Rightarrow> charge list \<times> code_issue list" where
  "complexity_check w p =
     (case read_text w p of
        Inl e \<Rightarrow> ([], [report ''Complexity analysis failed: '' e])
      | Inr src \<Rightarrow>
          (case cc_visit w src of
             Inl e \<Rightarrow> ([], [report ''Complexity analysis failed: '' e])
           | Inr blocks \<Rightarrow>
               (case raw_metrics_loc w src of
                  Inl e \<Rightarrow> (complexity_findings blocks, [report ''Complexity analysis failed: '' e])
                | Inr loc \<Rightarrow> (complexity_findings blocks @ size_findings loc, []))))"

definition naming_check :: "world \<Rightarrow> string \<Rightarrow> charge list" where
  "naming_check w p =
     (case read_text w p of
        Inl e \<Rightarrow> []
      | Inr src \<Rightarrow>
          (case ast_parse w src of
             Inr tree \<Rightarrow> naming_findings tree
           | Inl (SyntaxError m l) \<Rightarrow>
               [(\<lparr>type = ''error'', message = ''Syntax error: '' @ m, line = l\<rparr>, 20, [])]
           | Inl e \<Rightarrow> []))"

definition findings :: "world \<Rightarrow> string \<Rightarrow> charge list" where
  "findings w p = fst (lint_check w p) @ fst (complexity_check w p) @ naming_check w p"

definition reports :: "world \<Rightarrow> string \<Rightarrow> code_issue list" where
  "reports w p = snd (lint_check w p) @ snd (complexity_check w p)"

text \<open>The issues in the order of the run: each check's findings, then its report.\<close>

definition issues_in_order :: "world \<Rightarrow> string \<Rightarrow> code_issue list" where
  "issues_in_order w p =
     map issue_of (fst (lint_check w p)) @ snd (lint_check w p)
     @ map issue_of (fst (complexity_check w p)) @ snd (complexity_check w p)
     @ map issue_of (naming_check w p)"



subsection \<open>Concrete inputs\<close>

text \<open>Two parsers: one that accepts every text as a module with one statement, one that
  rejects every text.\<close>

definition accepting :: parser where
  "accepting src = Inr [OtherNode, OtherNode]"

definition rejecting :: parser where
  "rejecting src = Inl (SyntaxError ''invalid syntax (<unknown>, line 1)'' (Some 1))"

text \<open>The exception of the call \<open>radon_metrics.raw_metrics(code)\<close>.\<close>

definition no_raw_metrics :: exn where
  "no_raw_metrics =
     OtherException (''module 'radon.metrics' has no attribute 'raw_metrics'' @ [CHR 0x27])"

text \<open>Two outcomes of the pylint step: the program is not installed, so that
  \<open>subprocess.run\<close> raises \<open>FileNotFoundError\<close>; or it runs and reports nothing.\<close>

definition pylint_missing :: "exn + pylint_item list" where
  "pylint_missing = Inl (OtherException (''[Errno 2] No such file or directory: 'pylint'' @ [CHR 0x27]))"

definition pylint_clean :: "exn + pylint_item list" where
  "pylint_clean = Inr []"

text \<open>
  A module with a docstring and one function \<open>nm\<close> with a docstring and no statement:
  the lines \<^verbatim>\<open>"""Module."""\<close>, two empty lines, \<^verbatim>\<open>def nm():\<close> and
  \<^verbatim>\<open>    """Do nothing."""\<close>.
\<close>

definition module_source :: "string \<Rightarrow> string" where
  "module_source nm =
     [CHR 0x22, CHR 0x22, CHR 0x22] @ ''Module.'' @ [CHR 0x22, CHR 0x22, CHR 0x22] @ [CHR 0x0A] @
     [CHR 0x0A] @ [CHR 0x0A] @
     ''def '' @ nm @ ''():'' @ [CHR 0x0A] @
     ''    '' @ [CHR 0x22, CHR 0x22, CHR 0x22] @ ''Do nothing.'' @ [CHR 0x22, CHR 0x22, CHR 0x22] @ [CHR 0x0A]"

text \<open>
  A run on that module: \<open>lint\<close> is the outcome of the pylint step, \<open>cc_visit\<close> gives the
  one function at complexity 1, the call of \<open>radon_metrics.raw_metrics\<close> raises
  \<open>AttributeError\<close>, and the tree walks as the module, the docstring statement, the
  function on line 4, and four nodes below them.
\<close>

definition one_function_world :: "string \<Rightarrow> exn + pylint_item list \<Rightarrow> world" where
  "one_function_world nm lint =
     \<lparr>pylint = (\<lambda>p. lint),
      read_text = (\<lambda>p. Inr (module_source nm)),
      cc_visit = (\<lambda>s. Inr [\<lparr>name = nm, complexity = 1, lineno = 4\<rparr>]),
      raw_metrics_loc = (\<lambda>s. Inl no_raw_metrics),
      ast_parse = (\<lambda>s. Inr [OtherNode, OtherNode, FunctionDef nm 4, OtherNode, OtherNode, OtherNode,
                             OtherNode]),
      read_utf8 = (\<lambda>p. Inr (module_source nm))\<rparr>"

text \<open>The world in which the file does not exist and pylint is not installed.\<close>

definition missing_file_world :: world where
  "missing_file_world =
     \<lparr>pylint = (\<lambda>p. pylint_missing),
      read_text = (\<lambda>p. Inl (OtherException (''[Errno 2] No such file or directory: '' @ p))),
      cc_visit = (\<lambda>s. Inr []),
      raw_metrics_loc = (\<lambda>s. Inl no_raw_metrics),
      ast_parse = (\<lambda>s. Inr [OtherNode]),
      read_utf8 = (\<lambda>p. Inl (OtherException (''[Errno 2] No such file or directory: '' @ p)))\<rparr>"

text \<open>A function whose body starts with a docstring: the three lines
  \<^verbatim>\<open>def f():\<close>, \<^verbatim>\<open>    """Doc."""\<close> and \<^verbatim>\<open>    pass\<close>.\<close>

definition documented_def :: string where
  "documented_def =
     ''def f():'' @ [CHR 0x0A] @
     ''    '' @ [CHR 0x22, CHR 0x22, CHR 0x22] @ ''Doc.'' @ [CHR 0x22, CHR 0x22, CHR 0x22] @ [CHR 0x0A] @
     ''    pass''"

section \<open>Properties of command_analyzer.py\<close>

subsection \<open>Matching and the table scans\<close>

lemma findall_0_of_search:
  "re_search ic pat s \<Longrightarrow> \<exists>part. re_findall_0 ic pat s = Inr part"
  by (auto simp: re_search_def re_findall_0_def)

text \<open>The index into \<open>findall\<close> is guarded by \<open>search\<close>, so the loop over the table
  raises nothing.\<close>

lemma scan_dangerous_returns:
  "\<exists>found' level'. scan_dangerous tbl cmd found level = Inr (found', level')"
proof (induction tbl arbitrary: found level)
  case Nil
  show ?case by simp
next
  case (Cons entry tbl)
  obtain pat rk msg where entry: "entry = (pat, rk, msg)" by (cases entry) auto
  show ?case
  proof (cases "re_search True pat cmd")
    case True
    then obtain part where "re_findall_0 True pat cmd = Inr part"
      using findall_0_of_search by blast
    with True Cons.IH entry show ?thesis by simp
  next
    case False
    with Cons.IH entry show ?thesis by simp
  qed
qed

lemma scan_dangerous_step:
  assumes "re_search True pat cmd"
  obtains part where
    "scan_dangerous ((pat, rk, msg) # tbl) cmd found level =
       scan_dangerous tbl cmd
         (found @ [\<lparr>type = ''SECURITY'', message = msg, risk = rk, command_part = part\<rparr>])
         (escalate rk level)"
proof -
  from assms obtain part where "re_findall_0 True pat cmd = Inr part"
    using findall_0_of_search by blast
  with assms that show thesis by simp
qed

lemma scan_dangerous_skip:
  "\<not> re_search True pat cmd \<Longrightarrow>
     scan_dangerous ((pat, rk, msg) # tbl) cmd found level = scan_dangerous tbl cmd found level"
  by simp

lemma escalate_in_tiers: "level \<in> set tiers \<Longrightarrow> escalate rk level \<in> set tiers"
  by (auto simp: escalate_def tiers_def)

lemma escalate_mono: "level \<in> set tiers \<Longrightarrow> tier_le level (escalate rk level)"
  by (auto simp: escalate_def tiers_def tier_le_def tier_rank_def)

lemma tier_le_trans: "tier_le a b \<Longrightarrow> tier_le b c \<Longrightarrow> tier_le a c"
  by (auto simp: tier_le_def split: option.splits)

lemma tier_le_refl: "a \<in> set tiers \<Longrightarrow> tier_le a a"
  by (auto simp: tier_le_def tiers_def tier_rank_def)

lemma scan_dangerous_level:
  "scan_dangerous tbl cmd found level = Inr (found', level') \<Longrightarrow> level \<in> set tiers
   \<Longrightarrow> level' \<in> set tiers \<and> tier_le level level'"
proof (induction tbl arbitrary: found level)
  case Nil
  then show ?case by (simp add: tier_le_refl)
next
  case (Cons entry tbl)
  obtain pat rk msg where entry: "entry = (pat, rk, msg)" by (cases entry) auto
  show ?case
  proof (cases "re_search True pat cmd")
    case True
    then obtain part where
      "scan_dangerous ((pat, rk, msg) # tbl) cmd found level =
         scan_dangerous tbl cmd
           (found @ [\<lparr>type = ''SECURITY'', message = msg, risk = rk, command_part = part\<rparr>])
           (escalate rk level)"
      by (rule scan_dangerous_step)
    with Cons.prems(1) entry
    have "scan_dangerous tbl cmd
            (found @ [\<lparr>type = ''SECURITY'', message = msg, risk = rk, command_part = part\<rparr>])
            (escalate rk level) = Inr (found', level')"
      by simp
    from Cons.IH [OF this escalate_in_tiers [OF Cons.prems(2)]]
    have "level' \<in> set tiers" and "tier_le (escalate rk level) level'" by simp_all
    with escalate_mono [OF Cons.prems(2)] show ?thesis
      using tier_le_trans by blast
  next
    case False
    with Cons entry show ?thesis by simp
  qed
qed

lemma scan_dangerous_keeps:
  "scan_dangerous tbl cmd found level = Inr (found', level') \<Longrightarrow> \<exists>extra. found' = found @ extra"
proof (induction tbl arbitrary: found level)
  case Nil
  then show ?case by simp
next
  case (Cons entry tbl)
  obtain pat rk msg where entry: "entry = (pat, rk, msg)" by (cases entry) auto
  show ?case
  proof (cases "re_search True pat cmd")
    case True
    then obtain part where
      "scan_dangerous ((pat, rk, msg) # tbl) cmd found level =
         scan_dangerous tbl cmd
           (found @ [\<lparr>type = ''SECURITY'', message = msg, risk = rk, command_part = part\<rparr>])
           (escalate rk level)"
      by (rule scan_dangerous_step)
    with Cons.prems entry
    have "scan_dangerous tbl cmd
            (found @ [\<lparr>type = ''SECURITY'', message = msg, risk = rk, command_part = part\<rparr>])
            (escalate rk level) = Inr (found', level')"
      by simp
    from Cons.IH [OF this] show ?thesis by auto
  next
    case False
    with Cons entry show ?thesis by simp
  qed
qed

text \<open>Every entry that matches leaves its issue, with the tier of the entry.\<close>

lemma scan_dangerous_reports:
  "scan_dangerous tbl cmd found level = Inr (found', level') \<Longrightarrow> (pat, rk, msg) \<in> set tbl
   \<Longrightarrow> re_search True pat cmd
   \<Longrightarrow> \<exists>i \<in> set found'. type i = ''SECURITY'' \<and> risk i = rk \<and> message i = msg"
proof (induction tbl arbitrary: found level)
  case Nil
  then show ?case by simp
next
  case (Cons entry tbl)
  obtain pat' rk' msg' where entry: "entry = (pat', rk', msg')" by (cases entry) auto
  show ?case
  proof (cases "re_search True pat' cmd")
    case True
    then obtain part where
      "scan_dangerous ((pat', rk', msg') # tbl) cmd found level =
         scan_dangerous tbl cmd
           (found @ [\<lparr>type = ''SECURITY'', message = msg', risk = rk', command_part = part\<rparr>])
           (escalate rk' level)"
      by (rule scan_dangerous_step)
    with Cons.prems(1) entry
    have step: "scan_dangerous tbl cmd
            (found @ [\<lparr>type = ''SECURITY'', message = msg', risk = rk', command_part = part\<rparr>])
            (escalate rk' level) = Inr (found', level')"
      by simp
    let ?i = "\<lparr>type = ''SECURITY'', message = msg', risk = rk', command_part = part\<rparr>"
    show ?thesis
    proof (cases "(pat, rk, msg) = entry")
      case True
      from scan_dangerous_keeps [OF step] obtain extra where "found' = (found @ [?i]) @ extra" ..
      then have "?i \<in> set found'" by simp
      moreover have "type ?i = ''SECURITY'' \<and> risk ?i = rk' \<and> message ?i = msg'" by simp
      ultimately have "\<exists>i \<in> set found'. type i = ''SECURITY'' \<and> risk i = rk' \<and> message i = msg'"
        by (rule bexI [rotated])
      with True entry show ?thesis by simp
    next
      case False
      with Cons.prems(2) have "(pat, rk, msg) \<in> set tbl" by auto
      from Cons.IH [OF step this Cons.prems(3)] show ?thesis .
    qed
  next
    case False
    with Cons.prems entry have "(pat, rk, msg) \<in> set tbl" by auto
    moreover from Cons.prems(1) False entry
    have "scan_dangerous tbl cmd found level = Inr (found', level')" by simp
    ultimately show ?thesis using Cons.IH Cons.prems(3) by blast
  qed
qed

lemma scan_typos_keeps: "\<exists>extra. scan_typos tbl cmd found = found @ extra"
proof (induction tbl arbitrary: found)
  case Nil
  show ?case by simp
next
  case (Cons entry tbl)
  obtain typo correction where entry: "entry = (typo, correction)" by (cases entry) auto
  show ?case
  proof (cases "contains typo cmd")
    case True
    let ?i = "\<lparr>type = ''TYPO'', message = ''Possible typo: '' @ typo @ '' should be '' @ correction,
                risk = ''LOW'', command_part = typo\<rparr>"
    from Cons.IH [of "found @ [?i]"] obtain extra where
      "scan_typos tbl cmd (found @ [?i]) = (found @ [?i]) @ extra" ..
    with True entry show ?thesis by simp
  next
    case False
    with Cons.IH [of found] entry show ?thesis by simp
  qed
qed

subsection \<open>The shape of a run of analyze_command\<close>

lemma python_floor_in_tiers: "python_floor parse cmd \<in> set tiers"
  by (simp add: python_floor_def tiers_def)

text \<open>A run is the scan of the table from the floor, then the typo scan.\<close>

lemma analyze_command_parts:
  obtains found0 found1 level1 sugg where
    "found0 = (if looks_like_python cmd then analyze_python_syntax parse cmd else [])"
    "scan_dangerous dangerous_patterns cmd found0 (python_floor parse cmd) = Inr (found1, level1)"
    "analyze_command parse cmd =
       Inr \<lparr>issues = scan_typos common_typos cmd found1, suggestions = sugg, command = cmd,
            risk_level = level1, total_issues = length (scan_typos common_typos cmd found1),
            total_suggestions = length sugg, is_code = looks_like_python cmd,
            corrected_code = (if looks_like_python cmd then generate_corrected_code cmd else [])\<rparr>"
proof -
  let ?found0 = "if looks_like_python cmd then analyze_python_syntax parse cmd else []"
  obtain found1 level1 where scan:
    "scan_dangerous dangerous_patterns cmd ?found0 (python_floor parse cmd) = Inr (found1, level1)"
    using scan_dangerous_returns by blast
  have init: "(if looks_like_python cmd
      then (let python_issues = analyze_python_syntax parse cmd
            in (python_issues, if python_issues \<noteq> [] then ''MEDIUM'' else ''LOW''))
      else ([], ''LOW'')) = (?found0, python_floor parse cmd)"
    by (simp add: python_floor_def Let_def)
  have "analyze_command parse cmd =
       Inr \<lparr>issues = scan_typos common_typos cmd found1,
            suggestions = additional_checks cmd (scan_best_practices best_practices cmd []),
            command = cmd,
            risk_level = level1, total_issues = length (scan_typos common_typos cmd found1),
            total_suggestions = length (additional_checks cmd (scan_best_practices best_practices cmd [])),
            is_code = looks_like_python cmd,
            corrected_code = (if looks_like_python cmd then generate_corrected_code cmd else [])\<rparr>"
    unfolding analyze_command_def init using scan by (simp add: Let_def)
  with scan that show thesis by blast
qed

lemma analyze_command_returns: "\<exists>r. analyze_command parse cmd = Inr r"
  using analyze_command_parts [of cmd parse] by metis

subsection \<open>The overall risk level\<close>

text \<open>An entry whose tier is on the scale raises the level to the higher of the two
  positions; an entry whose tier is not on the scale leaves the level as it is.\<close>

lemma escalate_rank:
  "tier_rank level = Some n \<Longrightarrow>
     tier_rank (escalate rk level) = Some (case tier_rank rk of None \<Rightarrow> n | Some k \<Rightarrow> max n k)"
  by (auto simp: escalate_def tier_rank_def split: if_splits)

lemma scan_dangerous_rank:
  "scan_dangerous tbl cmd found level = Inr (found', level') \<Longrightarrow> tier_rank level = Some n \<Longrightarrow>
     tier_rank level' =
       Some (fold max (List.map_filter tier_rank
               (map (\<lambda>(pat, rk, msg). rk) (filter (\<lambda>(pat, rk, msg). re_search True pat cmd) tbl))) n)"
proof (induction tbl arbitrary: found level n)
  case Nil
  then show ?case by (simp add: List.map_filter_simps)
next
  case (Cons entry tbl)
  obtain pat rk msg where entry: "entry = (pat, rk, msg)" by (cases entry) auto
  show ?case
  proof (cases "re_search True pat cmd")
    case True
    then obtain part where
      "scan_dangerous ((pat, rk, msg) # tbl) cmd found level =
         scan_dangerous tbl cmd
           (found @ [\<lparr>type = ''SECURITY'', message = msg, risk = rk, command_part = part\<rparr>])
           (escalate rk level)"
      by (rule scan_dangerous_step)
    with Cons.prems(1) entry
    have step: "scan_dangerous tbl cmd
            (found @ [\<lparr>type = ''SECURITY'', message = msg, risk = rk, command_part = part\<rparr>])
            (escalate rk level) = Inr (found', level')"
      by simp
    from Cons.IH [OF step escalate_rank [OF Cons.prems(2)]] True entry
    show ?thesis
      by (cases "tier_rank rk") (simp_all add: List.map_filter_simps max.commute)
  next
    case False
    with Cons entry show ?thesis by simp
  qed
qed

text \<open>
  On every command the position of the returned level is the highest among the floor
  and the matched tiers that are on the scale; matched entries tagged \<open>DANGER\<close>
  do not count.
\<close>

lemma risk_level_is_max_on_scale:
  assumes "analyze_command parse cmd = Inr r"
  shows "tier_rank (risk_level r) =
    Some (fold max (List.map_filter tier_rank (matched_tiers cmd))
           (if looks_like_python cmd \<and> analyze_python_syntax parse cmd \<noteq> [] then 1 else 0))"
proof -
  obtain found0 found1 level1 sugg where
    scan: "scan_dangerous dangerous_patterns cmd found0 (python_floor parse cmd) = Inr (found1, level1)"
    and res: "analyze_command parse cmd =
       Inr \<lparr>issues = scan_typos common_typos cmd found1, suggestions = sugg, command = cmd,
            risk_level = level1, total_issues = length (scan_typos common_typos cmd found1),
            total_suggestions = length sugg, is_code = looks_like_python cmd,
            corrected_code = (if looks_like_python cmd then generate_corrected_code cmd else [])\<rparr>"
    by (rule analyze_command_parts)
  have floor: "tier_rank (python_floor parse cmd) =
      Some (if looks_like_python cmd \<and> analyze_python_syntax parse cmd \<noteq> [] then 1 else 0)"
    by (simp add: python_floor_def tier_rank_def)
  from assms res have "risk_level r = level1" by auto
  with scan_dangerous_rank [OF scan floor] show ?thesis
    by (simp add: matched_tiers_def)
qed

text \<open>
  Claim C1.  The overall risk level is to be the highest tier among the entries of the
  dangerous-pattern table that match the command.  On the command \<open>rm -rf /\<close> the only
  entry that matches carries the tier \<open>DANGER\<close>, and the level returned is \<open>LOW\<close>:
  the chain that raises the level knows \<open>CRITICAL\<close>, \<open>HIGH\<close> and \<open>MEDIUM\<close> only.
\<close>

theorem rm_rf_root_is_low:
  "matched_tiers ''rm -rf /'' = [''DANGER''] \<and>
   (\<exists>r. analyze_command parse ''rm -rf /'' = Inr r \<and> risk_level r = ''LOW''
        \<and> map risk (issues r) = [''DANGER''])"
proof -
  have m: "matched_tiers ''rm -rf /'' = [''DANGER'']" by code_simp
  have "analyze_command parse ''rm -rf /'' =
    Inr \<lparr>issues = [\<lparr>type = ''SECURITY'',
                     message = ''Using rm -rf on root directory can delete entire system'',
                     risk = ''DANGER'', command_part = ''rm -rf /''\<rparr>],
         suggestions = [], command = ''rm -rf /'', risk_level = ''LOW'', total_issues = 1,
         total_suggestions = 0, is_code = False, corrected_code = []\<rparr>"
    by code_simp
  with m show ?thesis by simp
qed

text \<open>
  Claim C5.  Within one run the level never goes down: from any level on the scale, the
  scan of any table of entries ends at a level that is on the scale and not below the
  one it started from; and when the command looks like Python and the syntax checker
  reports an issue, the level returned is at least \<open>MEDIUM\<close>.
\<close>

theorem risk_level_never_lowered:
  "(level \<in> set tiers \<and> scan_dangerous tbl cmd found level = Inr (found', level')
      \<longrightarrow> level' \<in> set tiers \<and> tier_le level level')
   \<and> (looks_like_python cmd \<and> analyze_python_syntax parse cmd \<noteq> []
      \<longrightarrow> (\<exists>r. analyze_command parse cmd = Inr r \<and> tier_le ''MEDIUM'' (risk_level r)))"
proof (rule conjI; rule impI)
  assume a: "level \<in> set tiers \<and> scan_dangerous tbl cmd found level = Inr (found', level')"
  then show "level' \<in> set tiers \<and> tier_le level level'"
    using scan_dangerous_level by blast
next
  assume py: "looks_like_python cmd \<and> analyze_python_syntax parse cmd \<noteq> []"
  obtain found0 found1 level1 sugg where
    scan: "scan_dangerous dangerous_patterns cmd found0 (python_floor parse cmd) = Inr (found1, level1)"
    and res: "analyze_command parse cmd =
       Inr \<lparr>issues = scan_typos common_typos cmd found1, suggestions = sugg, command = cmd,
            risk_level = level1, total_issues = length (scan_typos common_typos cmd found1),
            total_suggestions = length sugg, is_code = looks_like_python cmd,
            corrected_code = (if looks_like_python cmd then generate_corrected_code cmd else [])\<rparr>"
    by (rule analyze_command_parts)
  from py have "python_floor parse cmd = ''MEDIUM''" by (simp add: python_floor_def)
  with scan_dangerous_level [OF scan python_floor_in_tiers] have "tier_le ''MEDIUM'' level1"
    by simp
  with res show "\<exists>r. analyze_command parse cmd = Inr r \<and> tier_le ''MEDIUM'' (risk_level r)"
    by simp
qed

theorem risk_level_never_lowered_witness:
  "''MEDIUM'' \<in> set tiers
   \<and> scan_dangerous dangerous_patterns ''sudo rm -rf /tmp/x; chmod 777 y'' [] ''MEDIUM''
       = Inr ([\<lparr>type = ''SECURITY'',
                 message = ''Using rm -rf on root directory can delete entire system'',
                 risk = ''DANGER'', command_part = ''rm -rf /''\<rparr>,
               \<lparr>type = ''SECURITY'',
                 message = ''Setting permissions to 777 gives full access to everyone'',
                 risk = ''MEDIUM'', command_part = ''chmod 777 ''\<rparr>,
               \<lparr>type = ''SECURITY'',
                 message = ''Combining sudo with rm -rf is extremely dangerous'',
                 risk = ''CRITICAL'', command_part = ''sudo rm -rf''\<rparr>], ''CRITICAL'')
   \<and> tier_le ''MEDIUM'' ''CRITICAL''
   \<and> looks_like_python ''print hello''
   \<and> analyze_python_syntax rejecting ''print hello'' \<noteq> []
   \<and> (\<exists>r. analyze_command rejecting ''print hello'' = Inr r \<and> tier_le ''MEDIUM'' (risk_level r))"
proof -
  have h1: "''MEDIUM'' \<in> set tiers" by (simp add: tiers_def)
  have h2: "scan_dangerous dangerous_patterns ''sudo rm -rf /tmp/x; chmod 777 y'' [] ''MEDIUM''
       = Inr ([\<lparr>type = ''SECURITY'',
                 message = ''Using rm -rf on root directory can delete entire system'',
                 risk = ''DANGER'', command_part = ''rm -rf /''\<rparr>,
               \<lparr>type = ''SECURITY'',
                 message = ''Setting permissions to 777 gives full access to everyone'',
                 risk = ''MEDIUM'', command_part = ''chmod 777 ''\<rparr>,
               \<lparr>type = ''SECURITY'',
                 message = ''Combining sudo with rm -rf is extremely dangerous'',
                 risk = ''CRITICAL'', command_part = ''sudo rm -rf''\<rparr>], ''CRITICAL'')"
    by code_simp
  have h3: "looks_like_python ''print hello''" by code_simp
  have h4: "analyze_python_syntax rejecting ''print hello'' \<noteq> []" by code_simp
  from risk_level_never_lowered
    [where level = "''MEDIUM''" and tbl = dangerous_patterns
       and cmd = "''sudo rm -rf /tmp/x; chmod 777 y''" and found = "[]" and level' = "''CRITICAL''"]
  have c1: "tier_le ''MEDIUM'' ''CRITICAL''" using h1 h2 by blast
  from risk_level_never_lowered [where cmd = "''print hello''" and parse = rejecting]
  have c2: "\<exists>r. analyze_command rejecting ''print hello'' = Inr r \<and> tier_le ''MEDIUM'' (risk_level r)"
    using h3 h4 by blast
  from h1 h2 h3 h4 c1 c2 show ?thesis by blast
qed

text \<open>
  Claim C10.  The level returned is always one of \<open>LOW\<close>, \<open>MEDIUM\<close>, \<open>HIGH\<close> and
  \<open>CRITICAL\<close>; and whenever an entry of the table tagged \<open>DANGER\<close> matches, the issues
  hold a \<open>SECURITY\<close> issue whose own risk is \<open>DANGER\<close>, a value that is not on that scale.
\<close>

theorem risk_level_on_scale_issue_risk_not:
  "\<exists>r. analyze_command parse cmd = Inr r \<and> risk_level r \<in> set tiers
     \<and> ((pat, ''DANGER'', msg) \<in> set dangerous_patterns \<and> re_search True pat cmd
          \<longrightarrow> (\<exists>i \<in> set (issues r). type i = ''SECURITY'' \<and> risk i = ''DANGER'' \<and> message i = msg
                \<and> risk i \<notin> set tiers))"
proof -
  obtain found0 found1 level1 sugg where
    scan: "scan_dangerous dangerous_patterns cmd found0 (python_floor parse cmd) = Inr (found1, level1)"
    and res: "analyze_command parse cmd =
       Inr \<lparr>issues = scan_typos common_typos cmd found1, suggestions = sugg, command = cmd,
            risk_level = level1, total_issues = length (scan_typos common_typos cmd found1),
            total_suggestions = length sugg, is_code = looks_like_python cmd,
            corrected_code = (if looks_like_python cmd then generate_corrected_code cmd else [])\<rparr>"
    by (rule analyze_command_parts)
  have level: "level1 \<in> set tiers"
    using scan_dangerous_level [OF scan python_floor_in_tiers] by simp
  have danger: "\<exists>i \<in> set (scan_typos common_typos cmd found1).
        type i = ''SECURITY'' \<and> risk i = ''DANGER'' \<and> message i = msg \<and> risk i \<notin> set tiers"
    if "(pat, ''DANGER'', msg) \<in> set dangerous_patterns \<and> re_search True pat cmd"
  proof -
    from that scan_dangerous_reports [OF scan] obtain i where
      i: "i \<in> set found1" "type i = ''SECURITY'' \<and> risk i = ''DANGER'' \<and> message i = msg"
      by blast
    obtain extra where "scan_typos common_typos cmd found1 = found1 @ extra"
      using scan_typos_keeps by blast
    with i(1) have "i \<in> set (scan_typos common_typos cmd found1)" by simp
    moreover from i(2) have "risk i \<notin> set tiers" by (simp add: tiers_def)
    ultimately show ?thesis using i(2) by blast
  qed
  from res level danger show ?thesis by simp
qed

theorem risk_level_on_scale_issue_risk_not_witness:
  "(lits ''rm'' @ [Plus Space] @ lits ''-rf'' @ [Plus Space] @ lits ''*'',
     ''DANGER'', ''Using rm -rf * can delete all files in current directory'') \<in> set dangerous_patterns
   \<and> re_search True (lits ''rm'' @ [Plus Space] @ lits ''-rf'' @ [Plus Space] @ lits ''*'') ''rm -rf *''
   \<and> (\<exists>r. analyze_command accepting ''rm -rf *'' = Inr r \<and> risk_level r \<in> set tiers
        \<and> (\<exists>i \<in> set (issues r). type i = ''SECURITY'' \<and> risk i = ''DANGER''
              \<and> message i = ''Using rm -rf * can delete all files in current directory''
              \<and> risk i \<notin> set tiers))"
proof -
  let ?pat = "lits ''rm'' @ [Plus Space] @ lits ''-rf'' @ [Plus Space] @ lits ''*''"
  let ?msg = "''Using rm -rf * can delete all files in current directory''"
  have h1: "(?pat, ''DANGER'', ?msg) \<in> set dangerous_patterns"
    by (simp add: dangerous_patterns_def)
  have h2: "re_search True ?pat ''rm -rf *''" by code_simp
  from risk_level_on_scale_issue_risk_not
    [where parse = accepting and cmd = "''rm -rf *''" and pat = ?pat and msg = ?msg] h1 h2
  show ?thesis by blast
qed

subsection \<open>Letter case in the regular expressions\<close>

lemma ord_char_of: "n < 256 \<Longrightarrow> ord (char_of n) = n"
  by (simp add: ord_def)

lemma ord_inject: "ord c = ord d \<Longrightarrow> c = d"
  by (simp add: ord_def)

lemma ord_lower_char: "ord (lower_char c) = (if isupper_char c then ord c + 32 else ord c)"
proof (cases "isupper_char c")
  case True
  then have "ord c + 32 < 256" by (auto simp: isupper_char_def in_range_def)
  with True show ?thesis by (simp add: lower_char_def ord_char_of)
next
  case False
  then show ?thesis by (simp add: lower_char_def)
qed

lemma isspace_lower_char: "isspace (lower_char c) = isspace c"
  unfolding isspace_def in_range_def ord_lower_char isupper_char_def by presburger

lemma isword_lower_char: "isword (lower_char c) = isword c"
  unfolding isword_def in_range_def ord_lower_char isupper_char_def by presburger

lemma lower_char_idem: "lower_char (lower_char c) = lower_char c"
  by (rule ord_inject) (simp add: ord_lower_char isupper_char_def in_range_def)

lemma newline_lower_char: "(lower_char c = CHR 0x0A) = (c = CHR 0x0A)"
proof
  assume "lower_char c = CHR 0x0A"
  then have "ord (lower_char c) = 10" by (simp add: ord_def)
  then have "ord c = 10"
    unfolding ord_lower_char isupper_char_def in_range_def by presburger
  then have "ord c = ord (CHR 0x0A)" by (simp add: ord_def)
  then show "c = CHR 0x0A" by (rule ord_inject)
next
  assume "c = CHR 0x0A"
  then show "lower_char c = CHR 0x0A"
    by (simp add: lower_char_def isupper_char_def in_range_def ord_def)
qed

text \<open>Under \<open>re.IGNORECASE\<close> a class accepts a character or not by its lowered form.\<close>

lemma atom_ok_lower: "atom_ok True a (lower_char c) = atom_ok True a c"
proof (cases a)
  case (Lit p)
  then show ?thesis by (simp add: lower_char_idem)
next
  case Space
  then show ?thesis by (simp add: isspace_lower_char)
next
  case Word
  then show ?thesis by (simp add: isword_lower_char)
next
  case Dot
  then show ?thesis by (simp add: newline_lower_char)
next
  case (Range lo hi)
  then show ?thesis by (simp add: lower_char_idem)
next
  case (NoneOf cs)
  then show ?thesis by (simp add: lower_char_idem)
qed

lemma atom_ok_same_letter:
  assumes "lower_char c' = lower_char c"
  shows "atom_ok True a c' = atom_ok True a c"
proof -
  have "atom_ok True a c' = atom_ok True a (lower_char c')" by (simp only: atom_ok_lower)
  also have "\<dots> = atom_ok True a (lower_char c)" by (simp only: assms)
  also have "\<dots> = atom_ok True a c" by (simp only: atom_ok_lower)
  finally show ?thesis .
qed

lemma isword_same_letter:
  assumes "lower_char c' = lower_char c"
  shows "isword c' = isword c"
proof -
  have "isword c' = isword (lower_char c')" by (simp only: isword_lower_char)
  also have "\<dots> = isword (lower_char c)" by (simp only: assms)
  also have "\<dots> = isword c" by (simp only: isword_lower_char)
  finally show ?thesis .
qed

lemma lower_Cons_eq:
  "lower s' = lower (c # cs) \<Longrightarrow> \<exists>c' cs'. s' = c' # cs' \<and> lower_char c' = lower_char c \<and> lower cs' = lower cs"
  by (cases s') (simp_all add: lower_def)

lemma lower_Nil_eq: "lower s' = lower [] \<Longrightarrow> s' = []"
  by (simp add: lower_def)

lemma lower_length: "lower s' = lower s \<Longrightarrow> length s' = length s"
  unfolding lower_def by (rule map_eq_imp_length_eq)

lemma isword_opt_same_letter:
  assumes "map_option lower_char p' = map_option lower_char p"
  shows "isword_opt p' = isword_opt p"
proof (cases p)
  case None
  with assms show ?thesis by simp
next
  case (Some c)
  with assms obtain c' where "p' = Some c'" "lower_char c' = lower_char c" by (cases p') simp_all
  with Some isword_same_letter [of c' c] show ?thesis by (simp add: isword_opt_def)
qed

lemma at_boundary_same_letters:
  assumes "map_option lower_char prev' = map_option lower_char prev" and "lower s' = lower s"
  shows "at_boundary prev' s' = at_boundary prev s"
proof -
  have "map_option lower_char (case s' of [] \<Rightarrow> None | c # _ \<Rightarrow> Some c)
      = map_option lower_char (case s of [] \<Rightarrow> None | c # _ \<Rightarrow> Some c)"
    using assms(2) by (cases s; cases s') (simp_all add: lower_def)
  then have "isword_opt (case s' of [] \<Rightarrow> None | c # _ \<Rightarrow> Some c)
      = isword_opt (case s of [] \<Rightarrow> None | c # _ \<Rightarrow> Some c)"
    by (rule isword_opt_same_letter)
  moreover have "isword_opt prev' = isword_opt prev" using assms(1) by (rule isword_opt_same_letter)
  ultimately show ?thesis by (simp only: at_boundary_def)
qed

text \<open>Two texts that differ in letter case only are matched alike under
  \<open>re.IGNORECASE\<close>: the matcher succeeds on both or on neither, and leaves texts of the
  same length that differ in letter case only.\<close>

lemma match_here_same_letters:
  "lower s' = lower s \<Longrightarrow> map_option lower_char prev' = map_option lower_char prev
   \<Longrightarrow> rel_option same_letters (match_here True ps prev' s') (match_here True ps prev s)"
proof (induction "True" ps prev s arbitrary: prev' s' rule: match_here.induct)
  case (1 prev s)
  then show ?case by (simp add: same_letters_def)
next
  case (2 a ps prev)
  then have "s' = []" by (simp add: lower_Nil_eq)
  then show ?case by simp
next
  case (3 a ps prev c cs)
  from lower_Cons_eq [OF "3.prems"(1)] obtain c' cs' where
    s': "s' = c' # cs'" and c': "lower_char c' = lower_char c" and cs': "lower cs' = lower cs"
    by blast
  have ok: "atom_ok True a c' = atom_ok True a c" using c' by (rule atom_ok_same_letter)
  show ?case
  proof (cases "atom_ok True a c")
    case True
    have "rel_option same_letters (match_here True ps (Some c') cs') (match_here True ps (Some c) cs)"
      using True cs' c' by (intro "3.hyps") simp_all
    with True ok s' show ?thesis by simp
  next
    case False
    with ok s' show ?thesis by simp
  qed
next
  case (4 a ps prev)
  then have "s' = []" by (simp add: lower_Nil_eq)
  then show ?case by simp
next
  case (5 a ps prev c cs)
  from lower_Cons_eq [OF "5.prems"(1)] obtain c' cs' where
    s': "s' = c' # cs'" and c': "lower_char c' = lower_char c" and cs': "lower cs' = lower cs"
    by blast
  have ok: "atom_ok True a c' = atom_ok True a c" using c' by (rule atom_ok_same_letter)
  show ?case
  proof (cases "atom_ok True a c")
    case True
    have "rel_option same_letters (match_here True (Star a # ps) (Some c') cs')
            (match_here True (Star a # ps) (Some c) cs)"
      using True cs' c' by (intro "5.hyps") simp_all
    with True ok s' show ?thesis by simp
  next
    case False
    with ok s' show ?thesis by simp
  qed
next
  case (6 a ps prev)
  then have s': "s' = []" by (simp add: lower_Nil_eq)
  have "rel_option same_letters (match_here True ps prev' []) (match_here True ps prev [])"
    using "6.prems"(2) by (intro "6.hyps") simp_all
  with s' show ?case by simp
next
  case (7 a ps prev c cs)
  from lower_Cons_eq [OF "7.prems"(1)] obtain c' cs' where
    s': "s' = c' # cs'" and c': "lower_char c' = lower_char c" and cs': "lower cs' = lower cs"
    by blast
  have ok: "atom_ok True a c' = atom_ok True a c" using c' by (rule atom_ok_same_letter)
  show ?case
  proof (cases "atom_ok True a c")
    case True
    have more: "rel_option same_letters (match_here True (Star a # ps) (Some c') cs')
            (match_here True (Star a # ps) (Some c) cs)"
      using True cs' c' by (intro "7.hyps"(1)) simp_all
    show ?thesis
    proof (cases "match_here True (Star a # ps) (Some c) cs")
      case None
      with more have none': "match_here True (Star a # ps) (Some c') cs' = None"
        by (cases "match_here True (Star a # ps) (Some c') cs'") simp_all
      have "rel_option same_letters (match_here True ps prev' (c' # cs')) (match_here True ps prev (c # cs))"
        using True None "7.prems" s' by (intro "7.hyps"(2)) simp_all
      with True ok s' None none' show ?thesis by simp
    next
      case (Some r)
      with more obtain r' where "match_here True (Star a # ps) (Some c') cs' = Some r'"
        and "same_letters r' r"
        by (cases "match_here True (Star a # ps) (Some c') cs'") simp_all
      with True ok s' Some show ?thesis by simp
    qed
  next
    case False
    have "rel_option same_letters (match_here True ps prev' (c' # cs')) (match_here True ps prev (c # cs))"
      using False "7.prems" s' by (intro "7.hyps"(3)) simp_all
    with False ok s' show ?thesis by simp
  qed
next
  case (8 ps prev s)
  have b: "at_boundary prev' s' = at_boundary prev s"
    using "8.prems"(2) "8.prems"(1) by (rule at_boundary_same_letters)
  show ?case
  proof (cases "at_boundary prev s")
    case True
    have "rel_option same_letters (match_here True ps prev' s') (match_here True ps prev s)"
      using True "8.prems" by (intro "8.hyps") simp_all
    with True b show ?thesis by simp
  next
    case False
    with b show ?thesis by simp
  qed
qed

lemma search_from_same_letters:
  "lower s' = lower s \<Longrightarrow> map_option lower_char prev' = map_option lower_char prev
   \<Longrightarrow> rel_option same_letters (search_from True ps prev' s') (search_from True ps prev s)"
proof (induction s arbitrary: s' prev prev')
  case Nil
  then have s': "s' = []" by (simp add: lower_Nil_eq)
  have "rel_option same_letters (match_here True ps prev' []) (match_here True ps prev [])"
    using Nil.prems(2) by (intro match_here_same_letters) simp_all
  with s' show ?case
    by (cases "match_here True ps prev' []"; cases "match_here True ps prev []")
       (simp_all add: same_letters_def)
next
  case (Cons c cs)
  from lower_Cons_eq [OF Cons.prems(1)] obtain c' cs' where
    s': "s' = c' # cs'" and c': "lower_char c' = lower_char c" and cs': "lower cs' = lower cs"
    by blast
  have here: "rel_option same_letters (match_here True ps prev' (c' # cs')) (match_here True ps prev (c # cs))"
    using Cons.prems s' by (intro match_here_same_letters) simp_all
  show ?case
  proof (cases "match_here True ps prev (c # cs)")
    case None
    with here have none': "match_here True ps prev' (c' # cs') = None"
      by (cases "match_here True ps prev' (c' # cs')") simp_all
    have "rel_option same_letters (search_from True ps (Some c') cs') (search_from True ps (Some c) cs)"
      using cs' c' by (intro Cons.IH) simp_all
    with None none' s' show ?thesis by simp
  next
    case (Some r)
    with here obtain r' where r': "match_here True ps prev' (c' # cs') = Some r'"
      and same: "same_letters r' r"
      by (cases "match_here True ps prev' (c' # cs')") simp_all
    from same have "lower r' = lower r" by (simp only: same_letters_def)
    then have len: "length r' = length r" by (rule lower_length)
    from Cons.prems(1) s' have "lower (c' # cs') = lower (c # cs)" by simp
    then have "lower (take (length (c # cs) - length r) (c' # cs'))
        = lower (take (length (c # cs) - length r) (c # cs))"
      unfolding lower_def by (simp only: take_map [symmetric])
    moreover have "length (c' # cs') = length (c # cs)"
      using \<open>lower (c' # cs') = lower (c # cs)\<close> by (rule lower_length)
    ultimately have "same_letters (take (length (c' # cs') - length r') (c' # cs'))
        (take (length (c # cs) - length r) (c # cs))"
      using len by (simp add: same_letters_def)
    with Some r' s' show ?thesis by simp
  qed
qed

lemma re_search_same_letters:
  assumes "lower cmd' = lower cmd"
  shows "re_search True pat cmd' = re_search True pat cmd"
proof -
  have "rel_option same_letters (search_from True pat None cmd') (search_from True pat None cmd)"
    using assms by (intro search_from_same_letters) simp_all
  then show ?thesis
    unfolding re_search_def
    by (cases "search_from True pat None cmd'"; cases "search_from True pat None cmd") simp_all
qed

text \<open>So the two scans of regular expressions do not depend on the letter case of the
  command: the same entries match, and the same suggestions are made.\<close>

lemma regex_scans_ignore_case:
  assumes "lower cmd' = lower cmd"
  shows "matched_tiers cmd' = matched_tiers cmd"
    and "scan_best_practices tbl cmd' sugg = scan_best_practices tbl cmd sugg"
proof -
  have eq: "re_search True pat cmd' = re_search True pat cmd" for pat
    using assms by (rule re_search_same_letters)
  show "matched_tiers cmd' = matched_tiers cmd"
    by (simp add: matched_tiers_def eq)
  show "scan_best_practices tbl cmd' sugg = scan_best_practices tbl cmd sugg"
  proof (induction tbl arbitrary: sugg)
    case Nil
    show ?case by simp
  next
    case (Cons entry tbl)
    obtain pat suggestion where "entry = (pat, suggestion)" by (cases entry) auto
    with Cons.IH eq show ?case by simp
  qed
qed

subsection \<open>The typo scan\<close>

text \<open>
  Claim C7.  All three tables are to be matched without regard to letter case.  The two
  tables of regular expressions are searched with \<open>re.IGNORECASE\<close> and do not depend on
  the letter case of the command, as shown above; the typo scan tests \<open>typo in command\<close>
  on the command as typed, so \<open>cd..\<close> is reported and \<open>CD..\<close>, which contains the typo
  once lowered, is not.
\<close>

theorem typo_scan_is_case_sensitive:
  "(\<exists>r. analyze_command parse ''cd..'' = Inr r
        \<and> issues r = [\<lparr>type = ''TYPO'', message = ''Possible typo: cd.. should be cd ..'',
                         risk = ''LOW'', command_part = ''cd..''\<rparr>])
   \<and> contains ''cd..'' (lower ''CD..'')
   \<and> (\<exists>r. analyze_command parse ''CD..'' = Inr r \<and> issues r = [])"
proof -
  have "analyze_command parse ''cd..'' =
    Inr \<lparr>issues = [\<lparr>type = ''TYPO'', message = ''Possible typo: cd.. should be cd ..'',
                     risk = ''LOW'', command_part = ''cd..''\<rparr>],
         suggestions = [], command = ''cd..'', risk_level = ''LOW'', total_issues = 1,
         total_suggestions = 0, is_code = False, corrected_code = []\<rparr>"
    by code_simp
  moreover have "contains ''cd..'' (lower ''CD..'')" by code_simp
  moreover have "analyze_command parse ''CD..'' =
    Inr \<lparr>issues = [], suggestions = [], command = ''CD..'', risk_level = ''LOW'', total_issues = 0,
         total_suggestions = 0, is_code = False, corrected_code = []\<rparr>"
    by code_simp
  ultimately show ?thesis by simp
qed

subsection \<open>The syntax checker\<close>

text \<open>
  Claim C8.  When the parse of the text fails, the checker returns exactly one issue, of
  risk \<open>MEDIUM\<close>, whose message carries the text of the parser's error and whose
  \<open>command_part\<close> is the text itself; it is of type \<open>SYNTAX\<close> for a \<open>SyntaxError\<close> and of
  type \<open>ERROR\<close> for any other exception.  The checker returns a list in every case: no
  exception passes it.
\<close>

theorem parse_failure_gives_one_issue:
  assumes "parse cmd = Inl e"
  shows "\<exists>i. analyze_python_syntax parse cmd = [i] \<and> risk i = ''MEDIUM'' \<and> command_part i = cmd
     \<and> (case e of
           SyntaxError m l \<Rightarrow> type i = ''SYNTAX'' \<and> message i = ''Syntax error: '' @ exn_str e
         | _ \<Rightarrow> type i = ''ERROR'' \<and> message i = ''Python parsing error: '' @ exn_str e)"
  using assms by (cases e) (simp_all add: analyze_python_syntax_def python_syntax_body_def)

theorem parse_failure_gives_one_issue_witness:
  "rejecting ''def f(:'' = Inl (SyntaxError ''invalid syntax (<unknown>, line 1)'' (Some 1))
   \<and> analyze_python_syntax rejecting ''def f(:'' =
       [\<lparr>type = ''SYNTAX'', message = ''Syntax error: invalid syntax (<unknown>, line 1)'',
         risk = ''MEDIUM'', command_part = ''def f(:''\<rparr>]"
proof -
  have h: "rejecting ''def f(:'' = Inl (SyntaxError ''invalid syntax (<unknown>, line 1)'' (Some 1))"
    by (simp add: rejecting_def)
  from parse_failure_gives_one_issue [where parse = rejecting and cmd = "''def f(:''", OF h]
  obtain i where
    i: "analyze_python_syntax rejecting ''def f(:'' = [i]" "risk i = ''MEDIUM''"
       "command_part i = ''def f(:''" "type i = ''SYNTAX''"
       "message i = ''Syntax error: invalid syntax (<unknown>, line 1)''"
    by auto
  then have "i = \<lparr>type = ''SYNTAX'', message = ''Syntax error: invalid syntax (<unknown>, line 1)'',
         risk = ''MEDIUM'', command_part = ''def f(:''\<rparr>"
    by (cases i) simp
  with h i(1) show ?thesis by simp
qed

subsection \<open>Totality\<close>



subsection \<open>The corrector\<close>

lemma rstrip_Cons: "rstrip t = c # cs \<Longrightarrow> \<exists>ds. t = c # ds"
proof -
  assume a: "rstrip t = c # cs"
  have "rev t = takeWhile isspace (rev t) @ dropWhile isspace (rev t)" by simp
  then have "t = rev (dropWhile isspace (rev t)) @ rev (takeWhile isspace (rev t))"
    by (metis rev_append rev_rev_ident)
  with a have "t = (c # cs) @ rev (takeWhile isspace (rev t))" by (simp only: rstrip_def)
  then have "t = c # (cs @ rev (takeWhile isspace (rev t)))" by (simp only: append_Cons)
  then show ?thesis by (rule exI)
qed

text \<open>A stripped line does not start with whitespace.\<close>

lemma strip_head_not_space: "strip s = c # cs \<Longrightarrow> \<not> isspace c"
proof -
  assume "strip s = c # cs"
  then obtain ds where "dropWhile isspace s = c # ds"
    unfolding strip_def lstrip_def using rstrip_Cons by blast
  then show ?thesis by (simp add: dropWhile_eq_Cons_conv)
qed

lemma isspace_blank: "isspace CHR '' ''" and isspace_tab: "isspace (CHR 0x09)"
  by (simp_all add: isspace_def in_range_def ord_def)

text \<open>
  Claim C4.  A definition whose body starts with a docstring is to get no placeholder.
  The scan tests the stripped line for a leading blank or tab, which a stripped line
  never has, so it stops at the first line that is not empty before it looks for the
  quotes: \<open>has_docstring\<close> is never set, and the three lines are inserted after every
  header.
\<close>

theorem placeholder_after_every_header:
  "has_docstring rest = False
   \<and> corrected_lines (ln # rest) =
       (ln # (if is_header (strip ln) then placeholder ln else [])) @ corrected_lines rest"
proof -
  have never: "has_docstring ls = False" for ls
  proof (induction ls)
    case Nil
    show ?case by simp
  next
    case (Cons l ls)
    show ?case
    proof (cases "strip l")
      case Nil
      with Cons show ?thesis by simp
    next
      case (Cons c cs)
      then have "\<not> isspace c" by (rule strip_head_not_space)
      then have "c \<noteq> CHR '' ''" and "c \<noteq> CHR 0x09"
        using isspace_blank isspace_tab by auto
      with Cons show ?thesis by simp
    qed
  qed
  then show ?thesis by simp
qed

theorem placeholder_after_every_header_witness:
  "has_docstring (tl (split_nl documented_def)) = False
   \<and> generate_corrected_code documented_def =
       join [CHR 0x0A]
         [''def f():'',
          ''    '' @ [CHR 0x22, CHR 0x22, CHR 0x22],
          ''    Function description.'',
          ''    '' @ [CHR 0x22, CHR 0x22, CHR 0x22],
          ''    '' @ [CHR 0x22, CHR 0x22, CHR 0x22] @ ''Doc.'' @ [CHR 0x22, CHR 0x22, CHR 0x22],
          ''    pass'']"
proof -
  have "generate_corrected_code documented_def =
       join [CHR 0x0A]
         [''def f():'',
          ''    '' @ [CHR 0x22, CHR 0x22, CHR 0x22],
          ''    Function description.'',
          ''    '' @ [CHR 0x22, CHR 0x22, CHR 0x22],
          ''    '' @ [CHR 0x22, CHR 0x22, CHR 0x22] @ ''Doc.'' @ [CHR 0x22, CHR 0x22, CHR 0x22],
          ''    pass'']"
    by code_simp
  with placeholder_after_every_header [of "tl (split_nl documented_def)"] show ?thesis by simp
qed

section \<open>Properties of analyzer.py\<close>

subsection \<open>Each step adds its findings and its report\<close>

lemma points_Nil: "points [] = 0" and points_Cons: "points (f # fs) = points_of f + points fs"
  and points_append: "points (fs @ gs) = points fs + points gs"
  by (simp_all add: points_def)

lemma advice_Nil: "advice [] = []" and advice_Cons: "advice (f # fs) = advice_of f @ advice fs"
  and advice_append: "advice (fs @ gs) = advice fs @ advice gs"
  by (simp_all add: advice_def)

lemma charge_parts:
  "issue_of (i, n, a) = i" "points_of (i, n, a) = n" "advice_of (i, n, a) = a"
  by (simp_all add: issue_of_def points_of_def advice_of_def)

lemma failed_report: "failed what e (found, sugg, sc) = (found @ [report what e], sugg, sc)"
  by (simp add: failed_def report_def)

lemma pylint_loop_eq:
  "pylint_loop items (found, sugg, sc) =
     ((found @ map issue_of (lint_findings items), sugg @ advice (lint_findings items),
       sc - points (lint_findings items)), lint_raised items)"
proof (induction items arbitrary: found sc)
  case Nil
  show ?case by (simp add: points_Nil advice_Nil)
next
  case (Cons item items)
  show ?case
  proof (cases item)
    case (Item t m l)
    then show ?thesis
      by (simp add: Cons.IH points_Cons advice_Cons charge_parts)
  next
    case (Malformed e)
    then show ?thesis by (simp add: points_Nil advice_Nil)
  qed
qed

lemma run_pylint_eq:
  "run_pylint w p (found, sugg, sc) =
     (found @ map issue_of (fst (lint_check w p)) @ snd (lint_check w p),
      sugg @ advice (fst (lint_check w p)),
      sc - points (fst (lint_check w p)))"
proof (cases "pylint w p")
  case (Inl e)
  then show ?thesis
    by (simp add: run_pylint_def lint_check_def failed_report points_Nil advice_Nil)
next
  case (Inr items)
  show ?thesis
  proof (cases "lint_raised items")
    case None
    with Inr show ?thesis
      by (simp add: run_pylint_def lint_check_def pylint_loop_eq)
  next
    case (Some e)
    with Inr show ?thesis
      by (simp add: run_pylint_def lint_check_def pylint_loop_eq failed_report)
  qed
qed

lemma complexity_loop_eq:
  "complexity_loop blocks (found, sugg, sc) =
     (found @ map issue_of (complexity_findings blocks),
      sugg @ advice (complexity_findings blocks),
      sc - points (complexity_findings blocks))"
proof (induction blocks arbitrary: found sugg sc)
  case Nil
  show ?case by (simp add: complexity_findings_def points_Nil advice_Nil)
next
  case (Cons func blocks)
  have split: "complexity_findings (func # blocks) =
      (if complexity func > 10
       then [(\<lparr>type = ''warning'',
                 message = ''High complexity in '' @ name func @ '': '' @ str_int (complexity func),
                 line = Some (lineno func)\<rparr>,
               5, [''Refactor '' @ name func @ '' to reduce complexity''])]
       else []) @ complexity_findings blocks"
    by (simp add: complexity_findings_def)
  show ?case
    unfolding split
    by (simp add: Cons.IH points_Cons points_Nil advice_Cons advice_Nil charge_parts)
qed

text \<open>The second check assigns \<open>code\<close> exactly when the file was read.\<close>

lemma analyze_complexity_eq:
  "analyze_complexity w p (found, sugg, sc) =
     ((found @ map issue_of (fst (complexity_check w p)) @ snd (complexity_check w p),
       sugg @ advice (fst (complexity_check w p)),
       sc - points (fst (complexity_check w p))),
      (case read_text w p of Inl e \<Rightarrow> None | Inr src \<Rightarrow> Some src))"
proof (cases "read_text w p")
  case (Inl e)
  then show ?thesis
    by (simp add: analyze_complexity_def complexity_check_def failed_report points_Nil advice_Nil)
next
  case src: (Inr src)
  show ?thesis
  proof (cases "cc_visit w src")
    case (Inl e)
    with src show ?thesis
      by (simp add: analyze_complexity_def complexity_check_def failed_report points_Nil advice_Nil)
  next
    case blocks: (Inr blocks)
    show ?thesis
    proof (cases "raw_metrics_loc w src")
      case (Inl e)
      with src blocks show ?thesis
        by (simp add: analyze_complexity_def complexity_check_def complexity_loop_eq failed_report)
    next
      case (Inr loc)
      with src blocks show ?thesis
        by (simp add: analyze_complexity_def complexity_check_def complexity_loop_eq size_findings_def
            points_append points_Cons points_Nil advice_append advice_Cons advice_Nil charge_parts)
    qed
  qed
qed

subsection \<open>The naming walk\<close>

text \<open>The walk adds, in the order of the nodes, the warning and the suggestion of every
  node that breaks the naming rule, and takes two points for each.\<close>

lemma naming_loop_eq:
  "naming_loop tree (found, sugg, sc) =
     (found @ map naming_issue (filter breaks_naming_rule tree),
      sugg @ map naming_suggestion (filter breaks_naming_rule tree),
      sc - 2 * int (length (filter breaks_naming_rule tree)))"
proof (induction tree arbitrary: found sugg sc)
  case Nil
  show ?case by simp
next
  case (Cons n tree)
  show ?case by (cases n) (simp_all add: Cons.IH)
qed

lemma naming_findings_parts:
  "map issue_of (naming_findings tree) = map naming_issue (filter breaks_naming_rule tree)"
  "advice (naming_findings tree) = map naming_suggestion (filter breaks_naming_rule tree)"
  "points (naming_findings tree) = 2 * int (length (filter breaks_naming_rule tree))"
proof -
  show "map issue_of (naming_findings tree) = map naming_issue (filter breaks_naming_rule tree)"
    by (simp add: naming_findings_def charge_parts)
  show "advice (naming_findings tree) = map naming_suggestion (filter breaks_naming_rule tree)"
    by (induction tree) (simp_all add: naming_findings_def advice_def charge_parts)
  show "points (naming_findings tree) = 2 * int (length (filter breaks_naming_rule tree))"
    by (induction tree) (simp_all add: naming_findings_def points_def charge_parts)
qed

lemma analyze_naming_eq:
  assumes "read_text w p = Inr src" and "analyze_naming w (Some src) (found, sugg, sc) = Inr a'"
  shows "a' = (found @ map issue_of (naming_check w p), sugg @ advice (naming_check w p),
               sc - points (naming_check w p))"
proof (cases "ast_parse w src")
  case (Inr tree)
  with assms show ?thesis
    by (simp add: analyze_naming_def naming_check_def naming_loop_eq naming_findings_parts)
next
  case (Inl e)
  with assms show ?thesis
    by (cases e)
       (simp_all add: analyze_naming_def naming_check_def points_Cons points_Nil advice_Cons advice_Nil
          charge_parts)
qed

subsection \<open>The result of a run of analyze_code\<close>

text \<open>A run that returns has read the file; its issues are the findings and the reports
  in the order of the checks, its suggestions are those of the findings, and its score
  is 100 less the points of the findings, not below 0.\<close>

lemma analyze_code_result:
  assumes "analyze_code w p = Inr r"
  shows "issues r = issues_in_order w p"
    and "suggestions r = advice (findings w p)"
    and "score r = max 0 (100 - points (findings w p))"
    and "\<exists>src. read_text w p = Inr src"
proof -
  obtain src where src: "read_text w p = Inr src"
    using assms
    by (cases "read_text w p")
       (simp_all add: analyze_code_def run_pylint_eq analyze_complexity_eq analyze_naming_def)
  obtain found sugg sc where
    n: "analyze_naming w (Some src)
          (map issue_of (fst (lint_check w p)) @ snd (lint_check w p)
             @ map issue_of (fst (complexity_check w p)) @ snd (complexity_check w p),
           advice (fst (lint_check w p)) @ advice (fst (complexity_check w p)),
           100 - points (fst (lint_check w p)) - points (fst (complexity_check w p)))
        = Inr (found, sugg, sc)"
    and r: "issues r = found" "suggestions r = sugg" "score r = max 0 sc"
    using assms src
    by (auto simp: analyze_code_def run_pylint_eq analyze_complexity_eq Let_def
          split: sum.splits prod.splits)
  from analyze_naming_eq [OF src n] r
  show "issues r = issues_in_order w p" "suggestions r = advice (findings w p)"
    "score r = max 0 (100 - points (findings w p))"
    by (simp_all add: issues_in_order_def findings_def points_append advice_append)
  from src show "\<exists>src. read_text w p = Inr src" by blast
qed

text \<open>Every finding costs points.\<close>

lemma lint_findings_cost: "f \<in> set (lint_findings items) \<Longrightarrow> 0 < points_of f"
proof (induction items)
  case Nil
  then show ?case by simp
next
  case (Cons item items)
  then show ?case by (cases item) (auto simp: charge_parts)
qed

lemma findings_cost: "f \<in> set (findings w p) \<Longrightarrow> 0 < points_of f"
  by (auto simp: findings_def lint_check_def complexity_check_def naming_check_def
        complexity_findings_def size_findings_def naming_findings_def charge_parts
        dest: lint_findings_cost split: sum.splits exn.splits if_splits)

lemma points_nonneg: "(\<And>f. f \<in> set fs \<Longrightarrow> 0 < points_of f) \<Longrightarrow> 0 \<le> points fs"
  by (induction fs) (simp_all add: points_Nil points_Cons add_nonneg_nonneg less_imp_le)

lemma points_positive: "(\<And>f. f \<in> set fs \<Longrightarrow> 0 < points_of f) \<Longrightarrow> fs \<noteq> [] \<Longrightarrow> 0 < points fs"
proof (cases fs)
  case Nil
  assume "fs \<noteq> []"
  with Nil show ?thesis by simp
next
  case (Cons f gs)
  assume pos: "\<And>f. f \<in> set fs \<Longrightarrow> 0 < points_of f"
  with Cons have "0 < points_of f" by simp
  moreover have "0 \<le> points gs" using pos Cons by (intro points_nonneg) simp
  ultimately show ?thesis using Cons by (simp add: points_Cons)
qed


text \<open>
  Claim C6.  The score of a result lies between 0 and 100: it is 100 less the points of
  what the checks found, not below 0, and every finding costs points.  When the three
  checks find nothing the score is exactly 100, also when the result holds the reports
  of checks that failed, which cost nothing; and the score is below 100 as soon as a
  check finds something.
\<close>

theorem analyze_code_score:
  assumes "analyze_code w p = Inr r"
  shows "0 \<le> score r \<and> score r \<le> 100
    \<and> score r = max 0 (100 - points (findings w p))
    \<and> 0 \<le> points (findings w p)
    \<and> issues r = issues_in_order w p
    \<and> (findings w p = [] \<longrightarrow> score r = 100 \<and> issues r = reports w p)
    \<and> (findings w p \<noteq> [] \<longrightarrow> score r < 100)"
proof -
  have sc: "score r = max 0 (100 - points (findings w p))"
    and iss: "issues r = issues_in_order w p"
    using assms by (rule analyze_code_result)+
  have cost: "0 < points_of f" if "f \<in> set (findings w p)" for f
    using that by (rule findings_cost)
  have nonneg: "0 \<le> points (findings w p)"
    using cost by (rule points_nonneg)
  have none: "score r = 100 \<and> issues r = reports w p" if "findings w p = []"
  proof -
    from that have "fst (lint_check w p) = []" "fst (complexity_check w p) = []" "naming_check w p = []"
      by (simp_all add: findings_def)
    with iss have "issues r = reports w p" by (simp add: issues_in_order_def reports_def)
    moreover from sc that have "score r = 100" by (simp add: points_Nil)
    ultimately show ?thesis by simp
  qed
  have some: "score r < 100" if "findings w p \<noteq> []"
  proof -
    have "0 < points (findings w p)" using cost that by (rule points_positive)
    with sc show ?thesis by simp
  qed
  from sc iss nonneg none some show ?thesis by simp
qed

theorem analyze_code_score_witness:
  "analyze_code (one_function_world ''my_func'' pylint_missing) ''src/my.py'' =
     Inr \<lparr>issues = [report ''Pylint failed: '' (OtherException (''[Errno 2] No such file or directory: 'pylint'' @ [CHR 0x27])),
                    report ''Complexity analysis failed: '' no_raw_metrics],
          suggestions = [], filename = ''my.py'', score = 100,
          code_lines = splitlines (module_source ''my_func''), line_suggestions = []\<rparr>
   \<and> findings (one_function_world ''my_func'' pylint_missing) ''src/my.py'' = []
   \<and> reports (one_function_world ''my_func'' pylint_missing) ''src/my.py'' =
       [report ''Pylint failed: '' (OtherException (''[Errno 2] No such file or directory: 'pylint'' @ [CHR 0x27])),
        report ''Complexity analysis failed: '' no_raw_metrics]
   \<and> analyze_code (one_function_world ''my_func'' pylint_clean) ''src/my.py'' =
     Inr \<lparr>issues = [report ''Complexity analysis failed: '' no_raw_metrics],
          suggestions = [], filename = ''my.py'', score = 100,
          code_lines = splitlines (module_source ''my_func''), line_suggestions = []\<rparr>
   \<and> findings (one_function_world ''my_func'' pylint_clean) ''src/my.py'' = []
   \<and> analyze_code (one_function_world ''MyFunc'' pylint_missing) ''src/my.py'' =
     Inr \<lparr>issues = [report ''Pylint failed: '' (OtherException (''[Errno 2] No such file or directory: 'pylint'' @ [CHR 0x27])),
                    report ''Complexity analysis failed: '' no_raw_metrics,
                    naming_issue (FunctionDef ''MyFunc'' 4)],
          suggestions = [''Rename MyFunc to follow snake_case''], filename = ''my.py'', score = 98,
          code_lines = splitlines (module_source ''MyFunc''), line_suggestions = []\<rparr>
   \<and> findings (one_function_world ''MyFunc'' pylint_missing) ''src/my.py'' \<noteq> []
   \<and> (98::int) < 100"
proof -
  let ?missing = "OtherException (''[Errno 2] No such file or directory: 'pylint'' @ [CHR 0x27])"
  have r1: "analyze_code (one_function_world ''my_func'' pylint_missing) ''src/my.py'' =
     Inr \<lparr>issues = [report ''Pylint failed: '' ?missing,
                    report ''Complexity analysis failed: '' no_raw_metrics],
          suggestions = [], filename = ''my.py'', score = 100,
          code_lines = splitlines (module_source ''my_func''), line_suggestions = []\<rparr>"
    by code_simp
  have f1: "findings (one_function_world ''my_func'' pylint_missing) ''src/my.py'' = []"
    by code_simp
  have r2: "analyze_code (one_function_world ''my_func'' pylint_clean) ''src/my.py'' =
     Inr \<lparr>issues = [report ''Complexity analysis failed: '' no_raw_metrics],
          suggestions = [], filename = ''my.py'', score = 100,
          code_lines = splitlines (module_source ''my_func''), line_suggestions = []\<rparr>"
    by code_simp
  have f2: "findings (one_function_world ''my_func'' pylint_clean) ''src/my.py'' = []"
    by code_simp
  have r3: "analyze_code (one_function_world ''MyFunc'' pylint_missing) ''src/my.py'' =
     Inr \<lparr>issues = [report ''Pylint failed: '' ?missing,
                    report ''Complexity analysis failed: '' no_raw_metrics,
                    naming_issue (FunctionDef ''MyFunc'' 4)],
          suggestions = [''Rename MyFunc to follow snake_case''], filename = ''my.py'', score = 98,
          code_lines = splitlines (module_source ''MyFunc''), line_suggestions = []\<rparr>"
    by code_simp
  have f3: "findings (one_function_world ''MyFunc'' pylint_missing) ''src/my.py'' \<noteq> []"
    by code_simp
  let ?r1 = "\<lparr>issues = [report ''Pylint failed: '' ?missing,
                    report ''Complexity analysis failed: '' no_raw_metrics],
          suggestions = [], filename = ''my.py'', score = 100,
          code_lines = splitlines (module_source ''my_func''), line_suggestions = []\<rparr>"
  from analyze_code_score [OF r1] f1
  have "issues ?r1 = reports (one_function_world ''my_func'' pylint_missing) ''src/my.py''"
    by blast
  then have "reports (one_function_world ''my_func'' pylint_missing) ''src/my.py'' =
       [report ''Pylint failed: '' ?missing, report ''Complexity analysis failed: '' no_raw_metrics]"
    by simp
  moreover have "(98::int) < 100" by simp
  ultimately show ?thesis using r1 f1 r2 f2 r3 f3 by simp
qed

text \<open>
  Claim C2.  A failing check is to leave one \<open>error\<close> issue and let the others run.  When
  the file cannot be read, the second check leaves its issue and \<open>code\<close> unassigned; the
  third check then reads \<open>code\<close>, and its handler catches \<open>SyntaxError\<close> only: the call
  ends with \<open>UnboundLocalError\<close> and returns no result.
\<close>

theorem analyze_code_raises_when_unreadable:
  assumes "read_text w p = Inl e"
  shows "analyze_code w p =
    Inl (UnboundLocalError ''cannot access local variable 'code' where it is not associated with a value'')"
  using assms by (simp add: analyze_code_def analyze_complexity_def analyze_naming_def Let_def)

theorem analyze_code_raises_when_unreadable_witness:
  "read_text missing_file_world ''missing.py''
     = Inl (OtherException ''[Errno 2] No such file or directory: missing.py'')
   \<and> analyze_code missing_file_world ''missing.py'' =
    Inl (UnboundLocalError ''cannot access local variable 'code' where it is not associated with a value'')"
proof -
  have h: "read_text missing_file_world ''missing.py''
     = Inl (OtherException ''[Errno 2] No such file or directory: missing.py'')"
    by (simp add: missing_file_world_def)
  from h analyze_code_raises_when_unreadable [OF h] show ?thesis by simp
qed

subsection \<open>The naming rule in a run\<close>





end
